theory Spec2Isabelle
  imports Complex_Main
begin

section \<open>JavaScript values\<close>

text \<open>
  The component is \<^verbatim>\<open>web/src/components/player/dynamic/DynamicVideoPlayer.tsx\<close>.
  A JavaScript \<^verbatim>\<open>number\<close> is modelled as an exact rational: rounding of doubles is not
  modelled. The one division of the source whose divisor may be zero
  (\<^verbatim>\<open>detect.width / detect.height\<close>) returns a \<open>quotient\<close>, so that \<^verbatim>\<open>Infinity\<close> and
  \<^verbatim>\<open>NaN\<close> are values of the model and not HOL's \<open>x / 0 = 0\<close>.
\<close>

type_synonym number = rat

datatype quotient = Finite number | PosInfinity | NegInfinity | NaN

definition js_div :: "number \<Rightarrow> number \<Rightarrow> quotient" where
  "js_div a b =
     (if b \<noteq> 0 then Finite (a / b)
      else if 0 < a then PosInfinity
      else if a < 0 then NegInfinity
      else NaN)"

text \<open>\<^verbatim>\<open>q > y\<close> and \<^verbatim>\<open>q < y\<close> for a finite \<open>y\<close>: every comparison with \<^verbatim>\<open>NaN\<close> is false.\<close>

fun js_gt :: "quotient \<Rightarrow> number \<Rightarrow> bool" where
  "js_gt (Finite x) y = (y < x)"
| "js_gt PosInfinity y = True"
| "js_gt NegInfinity y = False"
| "js_gt NaN y = False"

fun js_lt :: "quotient \<Rightarrow> number \<Rightarrow> bool" where
  "js_lt (Finite x) y = (x < y)"
| "js_lt PosInfinity y = False"
| "js_lt NegInfinity y = True"
| "js_lt NaN y = False"

text \<open>\<^verbatim>\<open>x || 0\<close> on a number: \<open>0\<close> is the one falsy rational.\<close>

definition or_zero :: "number \<Rightarrow> number" where
  "or_zero x = (if x = 0 then 0 else x)"

text \<open>
  Truthiness of an optional number, as in \<^verbatim>\<open>!startTimestamp\<close>: \<^verbatim>\<open>undefined\<close> and \<open>0\<close> are
  falsy.
\<close>

fun truthy :: "number option \<Rightarrow> bool" where
  "truthy None = False"
| "truthy (Some t) = (t \<noteq> 0)"

text \<open>
  The time range holds epoch seconds, which the template literal prints in decimal.
  They are integers here (the decimal form JavaScript prints for an integer below
  \<open>10^21\<close>).
\<close>

fun digits :: "nat \<Rightarrow> string" where
  "digits n =
     (if n < 10 then [''0123456789'' ! n]
      else digits (n div 10) @ [''0123456789'' ! (n mod 10)])"

declare digits.simps [simp del]

definition toString :: "int \<Rightarrow> string" where
  "toString i = (if i < 0 then ''-'' @ digits (nat (- i)) else digits (nat i))"

text \<open>
  An object with an identity. \<^verbatim>\<open>Object.is\<close> on two immutable objects (the configuration
  and the recording list, which the data layer never mutates) is equality of identity
  and content; on the controller, which \<^verbatim>\<open>newPlayback\<close> mutates, it is equality of
  \<open>ident\<close> alone.
\<close>

datatype 'a obj = Obj (ident: nat) (val: 'a)

datatype error = TypeError

section \<open>Data model\<close>

record DetectConfig =
  width :: number
  height :: number
  annotation_offset :: number

record CameraConfig =
  detect :: DetectConfig

record FrigateConfig =
  cameras :: "(string \<times> CameraConfig) list"

record Recording =
  start_time :: number
  end_time :: number

record TimeRange =
  start :: int
  finish :: int

datatype HTMLVideoElement = HTMLVideoElement nat

datatype PreviewController = PreviewController nat

datatype PlayerMode = playback | scrubbing

subsection \<open>The controller class\<close>

text \<open>
  Modelled from the spec: the class \<^verbatim>\<open>DynamicVideoController\<close> is imported from
  \<^verbatim>\<open>./DynamicVideoController\<close>, a file that is not among the sources. The record holds the
  constructor's arguments in the order of the call in the component (camera, media
  element, preview controller, annotation offset in seconds, mode) and the recordings of
  the current session. The sixth argument, the state setter \<^verbatim>\<open>setFocusedItem\<close>, is left
  out: none of the three operations the spec describes calls it.
\<close>

record DynamicVideoController =
  camera_name :: string
  playerController :: HTMLVideoElement
  previewPlayer :: PreviewController
  annotationOffset :: number
  playerMode :: PlayerMode
  session_recordings :: "Recording list"

text \<open>Modelled from the spec: the constructor keeps its arguments; no session yet.\<close>

definition new_DynamicVideoController ::
  "string \<Rightarrow> HTMLVideoElement \<Rightarrow> PreviewController \<Rightarrow> number \<Rightarrow> PlayerMode
     \<Rightarrow> DynamicVideoController" where
  "new_DynamicVideoController cam el pc off m =
     \<lparr>camera_name = cam, playerController = el, previewPlayer = pc,
      annotationOffset = off, playerMode = m, session_recordings = []\<rparr>"

text \<open>What the controller asks of the two players.\<close>

datatype Command =
    MediaSeek HTMLVideoElement number bool
  | PreviewSeek PreviewController number

text \<open>
  Modelled from the spec: "if current mode is playback, issue a seek on the media element
  to timestamp (adjusted by the annotation offset) and set its intent-to-autoplay; if
  scrubbing, delegate the seek to the PreviewController instead". The spec's scenario
  (offset 5, timestamp 1500, target 1505) fixes the adjustment as an addition. The mode
  read is the controller's own field: the component passes the mode by value to the
  constructor and calls \<^verbatim>\<open>seekToTimestamp(startTimestamp, true)\<close> with no mode argument.
\<close>

definition seekToTimestamp :: "DynamicVideoController \<Rightarrow> number \<Rightarrow> bool \<Rightarrow> Command list" where
  "seekToTimestamp c t play =
     (case playerMode c of
        playback \<Rightarrow> [MediaSeek (playerController c) (t + annotationOffset c) play]
      | scrubbing \<Rightarrow> [PreviewSeek (previewPlayer c) t])"

text \<open>
  Modelled from the spec: "pure translation: returns rawPlayerTime + annotationOffset
  ... No side effects."
\<close>

definition getProgress :: "DynamicVideoController \<Rightarrow> number \<Rightarrow> number" where
  "getProgress c playerTime = playerTime + annotationOffset c"

text \<open>
  Modelled from the spec: "accepts a freshly resolved PlaybackSession (source +
  recordings)"; the component passes an object with the one field \<^verbatim>\<open>recordings\<close>.
\<close>

definition newPlayback :: "DynamicVideoController \<Rightarrow> Recording list \<Rightarrow> DynamicVideoController" where
  "newPlayback c recs = c\<lparr>session_recordings := recs\<rparr>"


section \<open>The component\<close>

text \<open>
  The props of \<^verbatim>\<open>DynamicVideoPlayer\<close>. An optional callback is a flag (given or not); the
  required callback \<^verbatim>\<open>onControllerReady\<close> and the optional ones are observed through the
  log of calls below. \<^verbatim>\<open>cameraPreviews\<close> is only handed on to the preview player.
\<close>

record Props =
  className :: "string option"
  camera :: string
  timeRange :: TimeRange
  startTimestamp :: "number option"
  isScrubbing :: bool
  onTimestampUpdate :: bool
  onClipEnded :: bool

text \<open>
  What a render reads from outside the component: \<^verbatim>\<open>useApiHost()\<close>, the data of
  \<^verbatim>\<open>useSWR("config")\<close>, \<^verbatim>\<open>playerRef.current\<close> (the ref is attached by the child
  \<^verbatim>\<open>HlsVideoPlayer\<close>; the render and the effects after it read the same element) and the
  data of the recordings request, whose key is the camera and
  \<^verbatim>\<open>{before: timeRange.end, after: timeRange.start}\<close>.
\<close>

record Env =
  apiHost :: string
  config :: "FrigateConfig obj option"
  playerRef :: "HTMLVideoElement option"
  recordings :: "Recording list obj option"

text \<open>Every call the component makes on its caller, on the media element and on the controller.\<close>

datatype Call =
    OnControllerReady "DynamicVideoController obj"
  | OnTimestampUpdate number
  | OnClipEnded
  | SetAutoplay HTMLVideoElement bool
  | SeekToTimestamp "DynamicVideoController obj" number bool
  | NewPlayback "DynamicVideoController obj" "Recording list"

text \<open>
  The hook cells of one mounted component: the closure of the last render (\<open>props\<close>,
  \<open>env\<close>), the two memoised values with their dependency arrays, the state variables
  \<^verbatim>\<open>previewController\<close>, \<^verbatim>\<open>isLoading\<close> and \<^verbatim>\<open>source\<close>, the dependency arrays the three
  effects last ran with, the next free object identity and the log of calls. The state
  variable \<^verbatim>\<open>focusedItem\<close> only decides whether the timeline overlay is drawn and is left
  out. A state setter updates its cell; the render it causes is an event of its own
  (\<open>Render\<close> below).
\<close>

record State =
  props :: Props
  env :: Env
  grow :: string
  grow_deps :: "string \<times> FrigateConfig obj option"
  previewController :: "PreviewController option"
  controller :: "DynamicVideoController obj option"
  controller_deps ::
    "string \<times> FrigateConfig obj option \<times> HTMLVideoElement option \<times> PreviewController option"
  ready_deps :: "nat option"
  isLoading :: bool
  source :: string
  scrubbing_deps :: bool
  playback_deps :: "nat option \<times> Recording list obj option"
  next_ident :: nat
  calls :: "Call list"

subsection \<open>Derived values\<close>

text \<open>The factory of the memo \<^verbatim>\<open>grow\<close>; reading \<^verbatim>\<open>.detect\<close> of a missing camera throws.\<close>

definition grow_factory :: "FrigateConfig obj option \<Rightarrow> string \<Rightarrow> error + string" where
  "grow_factory cfg cam =
     (case cfg of
        None \<Rightarrow> Inr ''aspect-video''
      | Some c \<Rightarrow>
          (case map_of (cameras (val c)) cam of
             None \<Rightarrow> Inl TypeError
           | Some cc \<Rightarrow>
               let aspectRatio = js_div (width (detect cc)) (height (detect cc))
               in if js_gt aspectRatio 2 then Inr ''''
                  else if js_lt aspectRatio (16 / 9) then Inr ''aspect-tall''
                  else Inr ''aspect-video''))"

text \<open>The template literal of the media source, written twice in the source.\<close>

definition vod_source :: "string \<Rightarrow> string \<Rightarrow> TimeRange \<Rightarrow> string" where
  "vod_source host cam r =
     host @ ''vod/'' @ cam @ ''/start/'' @ toString (start r) @ ''/end/''
       @ toString (finish r) @ ''/master.m3u8''"

text \<open>\<^verbatim>\<open>(config.cameras[camera]?.detect?.annotation_offset || 0) / 1000\<close>\<close>

definition offset_seconds :: "FrigateConfig \<Rightarrow> string \<Rightarrow> number" where
  "offset_seconds cfg cam =
     or_zero (case map_of (cameras cfg) cam of
                None \<Rightarrow> 0
              | Some cc \<Rightarrow> annotation_offset (detect cc)) / 1000"

text \<open>
  The factory of the memo \<^verbatim>\<open>controller\<close>; \<open>fresh\<close> is the identity of the object that
  \<^verbatim>\<open>new\<close> allocates.
\<close>

definition controller_factory ::
  "nat \<Rightarrow> string \<Rightarrow> FrigateConfig obj option \<Rightarrow> HTMLVideoElement option
     \<Rightarrow> PreviewController option \<Rightarrow> bool \<Rightarrow> DynamicVideoController obj option" where
  "controller_factory fresh cam cfg el pc scrub =
     (case cfg of
        None \<Rightarrow> None
      | Some c \<Rightarrow>
          (case el of
             None \<Rightarrow> None
           | Some e \<Rightarrow>
               (case pc of
                  None \<Rightarrow> None
                | Some p \<Rightarrow>
                    Some (Obj fresh
                      (new_DynamicVideoController cam e p (offset_seconds (val c) cam)
                         (if scrub then scrubbing else playback))))))"

subsection \<open>Effects\<close>

text \<open>The body of the effect with dependencies \<^verbatim>\<open>[controller]\<close>.\<close>

definition ready_effect :: "State \<Rightarrow> State" where
  "ready_effect s =
     (case controller s of
        None \<Rightarrow> s
      | Some c \<Rightarrow> s\<lparr>calls := calls s @ [OnControllerReady c]\<rparr>)"

text \<open>The body of the effect with dependencies \<^verbatim>\<open>[isScrubbing]\<close>.\<close>

definition scrubbing_effect :: "State \<Rightarrow> State" where
  "scrubbing_effect s = (if isScrubbing (props s) then s\<lparr>isLoading := True\<rparr> else s)"

text \<open>
  The body of the effect with dependencies \<^verbatim>\<open>[controller, recordings]\<close>. An empty array
  is truthy, so the guard \<^verbatim>\<open>!recordings\<close> holds only for \<^verbatim>\<open>undefined\<close>.
\<close>

definition playback_effect :: "State \<Rightarrow> State" where
  "playback_effect s =
     (case controller s of
        None \<Rightarrow> s
      | Some c \<Rightarrow>
          (case recordings (env s) of
             None \<Rightarrow> s
           | Some recs \<Rightarrow>
               let session = (case recordings (env s) of Some r \<Rightarrow> val r | None \<Rightarrow> []);
                   autoplay = (case playerRef (env s) of
                                 None \<Rightarrow> []
                               | Some el \<Rightarrow> [SetAutoplay el (\<not> isScrubbing (props s))])
               in s\<lparr>source := vod_source (apiHost (env s)) (camera (props s)) (timeRange (props s)),
                     isLoading := True,
                     controller := Some (Obj (ident c) (newPlayback (val c) session)),
                     calls := calls s @ autoplay @ [NewPlayback c session]\<rparr>))"

text \<open>
  \<^verbatim>\<open>useEffect(body, deps)\<close> after a render that is not the first: the body runs when the
  dependency array differs from the one of the last run.
\<close>

definition ready_hook :: "State \<Rightarrow> State" where
  "ready_hook s =
     (let deps = map_option ident (controller s)
      in if ready_deps s \<noteq> deps then ready_effect (s\<lparr>ready_deps := deps\<rparr>) else s)"

definition scrubbing_hook :: "State \<Rightarrow> State" where
  "scrubbing_hook s =
     (let deps = isScrubbing (props s)
      in if scrubbing_deps s \<noteq> deps then scrubbing_effect (s\<lparr>scrubbing_deps := deps\<rparr>)
         else s)"

definition playback_hook :: "State \<Rightarrow> State" where
  "playback_hook s =
     (let deps = (map_option ident (controller s), recordings (env s))
      in if playback_deps s \<noteq> deps then playback_effect (s\<lparr>playback_deps := deps\<rparr>)
         else s)"

text \<open>The effects are committed in the order of their declaration.\<close>

definition commit :: "State \<Rightarrow> State" where
  "commit s = playback_hook (scrubbing_hook (ready_hook s))"

subsection \<open>Mounting and rendering\<close>

text \<open>
  The first render. \<^verbatim>\<open>useRef(null)\<close>: the ref is attached after the first render, so the
  memo of the controller sees \<^verbatim>\<open>null\<close> whatever the element is; \<^verbatim>\<open>useState(null)\<close> for the
  preview controller. All three effects run after the first render.
\<close>

definition initial :: "Env \<Rightarrow> Props \<Rightarrow> string \<Rightarrow> State" where
  "initial e p g =
     (let ctl = controller_factory 0 (camera p) (config e) None None (isScrubbing p)
      in \<lparr>props = p, env = e, grow = g, grow_deps = (camera p, config e),
          previewController = None, controller = ctl,
          controller_deps = (camera p, config e, None, None),
          ready_deps = map_option ident ctl,
          isLoading = False,
          source = vod_source (apiHost e) (camera p) (timeRange p),
          scrubbing_deps = isScrubbing p,
          playback_deps = (map_option ident ctl, recordings e),
          next_ident = 0, calls = []\<rparr>)"

definition mount :: "Env \<Rightarrow> Props \<Rightarrow> error + State" where
  "mount e p =
     (case grow_factory (config e) (camera p) of
        Inl err \<Rightarrow> Inl err
      | Inr g \<Rightarrow> Inr (playback_effect (scrubbing_effect (ready_effect (initial e p g)))))"

text \<open>
  A later render: each memo keeps its value while its dependency array is unchanged
  (\<open>rendered\<close> is the state of the hook cells when the render returns), then the
  effects are committed.
\<close>

definition rendered :: "Env \<Rightarrow> Props \<Rightarrow> string \<Rightarrow> State \<Rightarrow> State" where
  "rendered e p g s =
     (let deps = (camera p, config e, playerRef e, previewController s);
          changed = (controller_deps s \<noteq> deps);
          ctl = (if changed
                 then controller_factory (next_ident s) (camera p) (config e) (playerRef e)
                        (previewController s) (isScrubbing p)
                 else controller s)
      in s\<lparr>props := p, env := e, grow := g,
            grow_deps := (camera p, config e),
            controller := ctl, controller_deps := deps,
            next_ident := (if changed then Suc (next_ident s) else next_ident s)\<rparr>)"

definition rerender :: "Env \<Rightarrow> Props \<Rightarrow> State \<Rightarrow> error + State" where
  "rerender e p s =
     (case (if grow_deps s = (camera p, config e) then Inr (grow s)
            else grow_factory (config e) (camera p)) of
        Inl err \<Rightarrow> Inl err
      | Inr g \<Rightarrow> Inr (commit (rendered e p g s)))"

subsection \<open>Event handlers\<close>

definition onPlayerLoaded :: "State \<Rightarrow> State" where
  "onPlayerLoaded s =
     (case controller s of
        None \<Rightarrow> s
      | Some c \<Rightarrow>
          if \<not> truthy (startTimestamp (props s)) then s
          else s\<lparr>calls := calls s @ [SeekToTimestamp c (the (startTimestamp (props s))) True]\<rparr>)"

definition onTimeUpdate :: "number \<Rightarrow> State \<Rightarrow> State" where
  "onTimeUpdate time s =
     (case controller s of
        None \<Rightarrow> s
      | Some c \<Rightarrow>
          if \<not> onTimestampUpdate (props s) \<or> time = 0 then s
          else s\<lparr>calls := calls s @ [OnTimestampUpdate (getProgress (val c) time)]\<rparr>)"

text \<open>\<^verbatim>\<open>onPlaying={() => setIsLoading(false)}\<close>\<close>

definition onPlaying :: "State \<Rightarrow> State" where
  "onPlaying s = s\<lparr>isLoading := False\<rparr>"

text \<open>The prop \<^verbatim>\<open>onClipEnded\<close> is handed to the player as it is.\<close>

definition clipEnded :: "State \<Rightarrow> State" where
  "clipEnded s = (if onClipEnded (props s) then s\<lparr>calls := calls s @ [OnClipEnded]\<rparr> else s)"

text \<open>The preview player's \<^verbatim>\<open>onControllerReady\<close>: \<^verbatim>\<open>setPreviewController(previewController)\<close>.\<close>

definition setPreviewController :: "PreviewController \<Rightarrow> State \<Rightarrow> State" where
  "setPreviewController pc s = s\<lparr>previewController := Some pc\<rparr>"

subsection \<open>What is rendered\<close>

record View =
  root_class :: string
  player_class :: string
  hls_class :: string
  currentSource :: string
  preview_class :: string

definition player_visibility :: "State \<Rightarrow> string" where
  "player_visibility s = (if isScrubbing (props s) \<or> isLoading s then ''hidden'' else ''visible'')"

definition preview_visibility :: "State \<Rightarrow> string" where
  "preview_visibility s = (if isScrubbing (props s) \<or> isLoading s then ''visible'' else ''hidden'')"

definition view :: "State \<Rightarrow> View" where
  "view s =
     \<lparr>root_class = ''relative '' @ (case className (props s) of None \<Rightarrow> '''' | Some c \<Rightarrow> c)
                      @ '' cursor-pointer'',
      player_class = ''w-full relative '' @ player_visibility s,
      hls_class = grow s,
      currentSource = source s,
      preview_class = preview_visibility s @ '' '' @ grow s\<rparr>"

subsection \<open>Runs\<close>

text \<open>
  What can happen to a mounted component. A render is caused by new props, by new data
  of a request or by a state update. \<open>PlayerLoaded src\<close> is the media element's load
  event for the source \<open>src\<close>; the handler takes no argument, so the source the event
  belongs to never reaches it.
\<close>

datatype Event =
    Render Env Props
  | PreviewControllerReady PreviewController
  | PlayerLoaded string
  | TimeUpdate number
  | Playing
  | ClipEnded

fun step :: "Event \<Rightarrow> State \<Rightarrow> error + State" where
  "step (Render e p) s = rerender e p s"
| "step (PreviewControllerReady pc) s = Inr (setPreviewController pc s)"
| "step (PlayerLoaded src) s = Inr (onPlayerLoaded s)"
| "step (TimeUpdate time) s = Inr (onTimeUpdate time s)"
| "step Playing s = Inr (onPlaying s)"
| "step ClipEnded s = Inr (clipEnded s)"

fun run :: "Event list \<Rightarrow> State \<Rightarrow> error + State" where
  "run [] s = Inr s"
| "run (ev # evs) s = (case step ev s of Inl err \<Rightarrow> Inl err | Inr s' \<Rightarrow> run evs s')"

definition mounted :: "Env \<Rightarrow> Props \<Rightarrow> Event list \<Rightarrow> error + State" where
  "mounted e p evs = (case mount e p of Inl err \<Rightarrow> Inl err | Inr s \<Rightarrow> run evs s)"

text \<open>
  The player commands a logged call on the controller stands for, by the spec's
  \<^verbatim>\<open>seekToTimestamp\<close> at the controller as it was when the call was made.
\<close>

fun commands :: "Call \<Rightarrow> Command list" where
  "commands (SeekToTimestamp c t play) = seekToTimestamp (val c) t play"
| "commands _ = []"

section \<open>Observations and invariants\<close>

text \<open>What the log of calls shows: the seeks, the controllers handed to
  \<^verbatim>\<open>onControllerReady\<close> (by identity), the recordings handed to \<^verbatim>\<open>newPlayback\<close> and the
  values assigned to \<^verbatim>\<open>autoplay\<close>, each in the order of the calls.\<close>

fun is_seek :: "Call \<Rightarrow> bool" where
  "is_seek (SeekToTimestamp c t play) = True"
| "is_seek _ = False"

fun ready_ident :: "Call \<Rightarrow> nat list" where
  "ready_ident (OnControllerReady c) = [ident c]"
| "ready_ident _ = []"

definition ready_idents :: "State \<Rightarrow> nat list" where
  "ready_idents s = concat (map ready_ident (calls s))"

fun session_of :: "Call \<Rightarrow> Recording list list" where
  "session_of (NewPlayback c recs) = [recs]"
| "session_of _ = []"

definition sessions :: "State \<Rightarrow> Recording list list" where
  "sessions s = concat (map session_of (calls s))"

fun autoplay_of :: "Call \<Rightarrow> (HTMLVideoElement \<times> bool) list" where
  "autoplay_of (SetAutoplay el b) = [(el, b)]"
| "autoplay_of _ = []"

definition autoplays :: "State \<Rightarrow> (HTMLVideoElement \<times> bool) list" where
  "autoplays s = concat (map autoplay_of (calls s))"

definition controller_ident :: "State \<Rightarrow> nat option" where
  "controller_ident s = map_option ident (controller s)"

text \<open>The guard of the controller's memo: configuration, element and preview controller
  are all there.\<close>

fun available ::
  "string \<times> FrigateConfig obj option \<times> HTMLVideoElement option \<times> PreviewController option
     \<Rightarrow> bool" where
  "available (cam, cfg, el, pc) = (cfg \<noteq> None \<and> el \<noteq> None \<and> pc \<noteq> None)"

text \<open>
  An event re-resolves the inputs of the controller to equal values: a render has the
  camera of the last render, and the configuration and the element of the last render if
  that had one; the preview player reports the preview controller it reported before, if
  it did. Every other prop, the recordings and every other event are free.
\<close>

fun stable :: "Event \<Rightarrow> State \<Rightarrow> bool" where
  "stable (Render e p) s =
     (case controller_deps s of
        (cam, cfg, el, pc) \<Rightarrow>
          camera p = cam \<and> (cfg = None \<or> config e = cfg) \<and> (el = None \<or> playerRef e = el))"
| "stable (PreviewControllerReady pc) s =
     (previewController s = None \<or> previewController s = Some pc)"
| "stable ev s = True"

fun stable_run :: "Event list \<Rightarrow> State \<Rightarrow> bool" where
  "stable_run [] s = True"
| "stable_run (ev # evs) s =
     (stable ev s \<and> (case step ev s of Inl err \<Rightarrow> True | Inr s' \<Rightarrow> stable_run evs s'))"

text \<open>
  The invariant of stable runs: the effect has seen the current controller, there is a
  controller exactly when the memo saw all its inputs, the callback got exactly the
  current controller, and the preview controller the memo saw is the one in the state.
\<close>

definition ready_once :: "State \<Rightarrow> bool" where
  "ready_once s \<longleftrightarrow>
     ready_deps s = controller_ident s
     \<and> (controller_ident s \<noteq> None) = available (controller_deps s)
     \<and> ready_idents s = (case controller_ident s of None \<Rightarrow> [] | Some i \<Rightarrow> [i])
     \<and> (case controller_deps s of
          (cam, cfg, el, pc) \<Rightarrow> pc = None \<or> previewController s = pc)"

text \<open>The invariant of all runs: the memoised sizing class is the one of the last render.\<close>

definition grow_current :: "State \<Rightarrow> bool" where
  "grow_current s \<longleftrightarrow>
     grow_deps s = (camera (props s), config (env s))
     \<and> Inr (grow s) = grow_factory (config (env s)) (camera (props s))"

text \<open>
  The invariant of all runs behind a change of the camera: the identities in use are
  below the next free one, and the memo of the controller saw the camera of the last
  render.
\<close>

definition idents_fresh :: "State \<Rightarrow> bool" where
  "idents_fresh s \<longleftrightarrow>
     (case controller_ident s of None \<Rightarrow> True | Some i \<Rightarrow> i < next_ident s)
     \<and> (case ready_deps s of None \<Rightarrow> True | Some i \<Rightarrow> i < next_ident s)
     \<and> list_all (\<lambda>i. i < next_ident s) (ready_idents s)
     \<and> fst (controller_deps s) = camera (props s)"

text \<open>The effect of the playback session runs and passes its guard.\<close>

definition playback_runs :: "State \<Rightarrow> bool" where
  "playback_runs s \<longleftrightarrow>
     playback_deps s \<noteq> (controller_ident s, recordings (env s))
     \<and> controller s \<noteq> None \<and> recordings (env s) \<noteq> None"

section \<open>A scenario\<close>

text \<open>
  The scenario of the spec: camera \<open>front\<close> (1920 by 1080, annotation offset 5000
  milliseconds), time range 1000 to 2000, start timestamp 1500. A second camera \<open>back\<close>
  (2560 by 720, no offset) and a second time range, 2000 to 3000, serve the runs in
  which the camera or the range changes.
\<close>

definition el0 :: HTMLVideoElement where
  "el0 = HTMLVideoElement 0"

definition pc0 :: PreviewController where
  "pc0 = PreviewController 0"

definition front_detect :: DetectConfig where
  "front_detect = \<lparr>width = 1920, height = 1080, annotation_offset = 5000\<rparr>"

definition back_detect :: DetectConfig where
  "back_detect = \<lparr>width = 2560, height = 720, annotation_offset = 0\<rparr>"

definition config0 :: "FrigateConfig obj" where
  "config0 =
     Obj 1 \<lparr>cameras = [(''front'', \<lparr>detect = front_detect\<rparr>),
                       (''back'', \<lparr>detect = back_detect\<rparr>)]\<rparr>"

definition rangeA :: TimeRange where
  "rangeA = \<lparr>start = 1000, finish = 2000\<rparr>"

definition rangeB :: TimeRange where
  "rangeB = \<lparr>start = 2000, finish = 3000\<rparr>"

definition recsA :: "Recording list obj" where
  "recsA = Obj 2 [\<lparr>start_time = 1000, end_time = 2000\<rparr>]"

definition recsB :: "Recording list obj" where
  "recsB = Obj 3 [\<lparr>start_time = 2000, end_time = 3000\<rparr>]"

definition sourceA :: string where
  "sourceA = ''/api/vod/front/start/1000/end/2000/master.m3u8''"

definition sourceB :: string where
  "sourceB = ''/api/vod/front/start/2000/end/3000/master.m3u8''"

text \<open>The configuration is there, the recordings are unresolved, resolved for range A, or
  resolved for range B.\<close>

definition env0 :: Env where
  "env0 = \<lparr>apiHost = ''/api/'', config = Some config0, playerRef = Some el0,
            recordings = None\<rparr>"

definition envA :: Env where
  "envA = env0\<lparr>recordings := Some recsA\<rparr>"

definition envB :: Env where
  "envB = env0\<lparr>recordings := Some recsB\<rparr>"

definition props0 :: Props where
  "props0 = \<lparr>className = None, camera = ''front'', timeRange = rangeA,
              startTimestamp = Some 1500, isScrubbing = False, onTimestampUpdate = True,
              onClipEnded = True\<rparr>"

definition props_back :: Props where
  "props_back = props0\<lparr>camera := ''back''\<rparr>"

definition props_epoch :: Props where
  "props_epoch = props0\<lparr>startTimestamp := Some 0\<rparr>"

definition propsB :: Props where
  "propsB = props0\<lparr>timeRange := rangeB\<rparr>"

text \<open>The controller the component builds for \<open>front\<close>.\<close>

definition ctl0 :: DynamicVideoController where
  "ctl0 = \<lparr>camera_name = ''front'', playerController = el0, previewPlayer = pc0,
            annotationOffset = 5, playerMode = playback, session_recordings = []\<rparr>"

text \<open>
  The states the runs of the scenario pass through; the lemmas of the next section show
  that each is the result of the step that leads to it. After the mount; after the
  preview player has reported its controller; after the render that builds the
  controller.
\<close>

definition s_mounted :: State where
  "s_mounted = \<lparr>props = props0, env = env0, grow = ''aspect-video'',
     grow_deps = (''front'', Some config0), previewController = None, controller = None,
     controller_deps = (''front'', Some config0, None, None), ready_deps = None,
     isLoading = False, source = ''/api/vod/front/start/1000/end/2000/master.m3u8'',
     scrubbing_deps = False, playback_deps = (None, None), next_ident = 0, calls = []\<rparr>"

definition s_preview :: State where
  "s_preview = s_mounted\<lparr>previewController := Some pc0\<rparr>"

definition s_ready :: State where
  "s_ready = \<lparr>props = props0, env = env0, grow = ''aspect-video'',
     grow_deps = (''front'', Some config0), previewController = Some pc0,
     controller = Some (Obj 0 ctl0),
     controller_deps = (''front'', Some config0, Some el0, Some pc0), ready_deps = Some 0,
     isLoading = False, source = ''/api/vod/front/start/1000/end/2000/master.m3u8'',
     scrubbing_deps = False, playback_deps = (Some 0, None), next_ident = 1,
     calls = [OnControllerReady (Obj 0 ctl0)]\<rparr>"

text \<open>After the camera has changed to \<open>back\<close>; after a render with the start timestamp 0.\<close>

definition s_back :: State where
  "s_back = s_ready\<lparr>props := props_back, grow := '''', grow_deps := (''back'', Some config0),
     controller := Some (Obj 1 (ctl0\<lparr>camera_name := ''back'', annotationOffset := 0\<rparr>)),
     controller_deps := (''back'', Some config0, Some el0, Some pc0),
     ready_deps := Some 1, playback_deps := (Some 1, None), next_ident := 2,
     calls := [OnControllerReady (Obj 0 ctl0),
               OnControllerReady
                 (Obj 1 (ctl0\<lparr>camera_name := ''back'', annotationOffset := 0\<rparr>))]\<rparr>"

definition s_epoch :: State where
  "s_epoch = s_ready\<lparr>props := props_epoch\<rparr>"

text \<open>
  The recordings of range A resolve (\<open>s_loadingA\<close>) and the player plays (\<open>s_playingA\<close>);
  the range changes to B while the recordings of B are unresolved, before (\<open>s_pendingB\<close>)
  or after (\<open>s_waitingB\<close>) the player has played A; the recordings of B resolve
  (\<open>s_loadingB\<close>); the load event of A's source arrives (\<open>s_staleA\<close>).
\<close>

definition s_loadingA :: State where
  "s_loadingA = s_ready\<lparr>env := envA, isLoading := True,
     controller := Some (Obj 0 (ctl0\<lparr>session_recordings := val recsA\<rparr>)),
     playback_deps := (Some 0, Some recsA),
     calls := [OnControllerReady (Obj 0 ctl0), SetAutoplay el0 True,
               NewPlayback (Obj 0 ctl0) (val recsA)]\<rparr>"

definition s_playingA :: State where
  "s_playingA = s_loadingA\<lparr>isLoading := False\<rparr>"

definition s_pendingB :: State where
  "s_pendingB = s_loadingA\<lparr>props := propsB, env := env0, playback_deps := (Some 0, None)\<rparr>"

definition s_waitingB :: State where
  "s_waitingB = s_playingA\<lparr>props := propsB, env := env0, playback_deps := (Some 0, None)\<rparr>"

definition s_loadingB :: State where
  "s_loadingB = s_pendingB\<lparr>env := envB, isLoading := True, source := sourceB,
     controller := Some (Obj 0 (ctl0\<lparr>session_recordings := val recsB\<rparr>)),
     playback_deps := (Some 0, Some recsB),
     calls := [OnControllerReady (Obj 0 ctl0), SetAutoplay el0 True,
               NewPlayback (Obj 0 ctl0) (val recsA), SetAutoplay el0 True,
               NewPlayback (Obj 0 (ctl0\<lparr>session_recordings := val recsA\<rparr>)) (val recsB)]\<rparr>"

definition s_staleA :: State where
  "s_staleA = s_loadingB\<lparr>calls := calls s_loadingB
     @ [SeekToTimestamp (Obj 0 (ctl0\<lparr>session_recordings := val recsB\<rparr>)) 1500 True]\<rparr>"

text \<open>
  The camera changes to \<open>back\<close> right after the mount (\<open>s_mounted_back\<close>); the range
  changes to B and \<^verbatim>\<open>isScrubbing\<close> turns true while range A plays and the recordings of B
  are unresolved (\<open>s_scrubB\<close>).
\<close>

definition s_mounted_back :: State where
  "s_mounted_back = s_mounted\<lparr>props := props_back, grow := '''',
     grow_deps := (''back'', Some config0),
     controller_deps := (''back'', Some config0, Some el0, None), next_ident := 1\<rparr>"

definition props_scrubB :: Props where
  "props_scrubB = propsB\<lparr>isScrubbing := True\<rparr>"

definition s_scrubB :: State where
  "s_scrubB = s_playingA\<lparr>props := props_scrubB, env := env0, isLoading := True,
     scrubbing_deps := True, playback_deps := (Some 0, None)\<rparr>"

section \<open>Properties\<close>

lemmas commit_defs = commit_def ready_hook_def scrubbing_hook_def playback_hook_def Let_def

subsection \<open>The scenario, evaluated\<close>

lemma grow_front: "grow_factory (Some config0) ''front'' = Inr ''aspect-video''"
  by (simp add: grow_factory_def config0_def front_detect_def js_div_def)

lemma offset_front: "offset_seconds (val config0) ''front'' = 5"
  by (simp add: offset_seconds_def config0_def front_detect_def or_zero_def)

lemma source_A: "vod_source ''/api/'' ''front'' rangeA = ''/api/vod/front/start/1000/end/2000/master.m3u8''"
  by (simp add: vod_source_def rangeA_def toString_def digits.simps)

lemma mount_scenario: "mount env0 props0 = Inr s_mounted"
  by (simp add: mount_def initial_def grow_front source_A env0_def props0_def s_mounted_def
      controller_factory_def ready_effect_def scrubbing_effect_def playback_effect_def)

lemma step_preview: "step (PreviewControllerReady pc0) s_mounted = Inr s_preview"
  by (simp add: setPreviewController_def s_preview_def)

lemma step_ready: "step (Render env0 props0) s_preview = Inr s_ready"
  by (simp add: rerender_def rendered_def commit_defs controller_factory_def
      offset_front new_DynamicVideoController_def ready_effect_def playback_effect_def
      s_preview_def s_mounted_def s_ready_def env0_def props0_def ctl0_def)

lemma step_preview_again: "step (PreviewControllerReady pc0) s_ready = Inr s_ready"
  by (simp add: setPreviewController_def s_ready_def)

lemma step_ready_again: "step (Render env0 props0) s_ready = Inr s_ready"
  by (simp add: rerender_def rendered_def commit_defs s_ready_def env0_def props0_def)

lemma stable_scenario:
  "stable (PreviewControllerReady pc0) s_mounted" "stable (Render env0 props0) s_preview"
  "stable (PreviewControllerReady pc0) s_ready" "stable (Render env0 props0) s_ready"
  by (simp_all add: s_preview_def s_mounted_def s_ready_def env0_def props0_def)

lemma grow_back: "grow_factory (Some config0) ''back'' = Inr ''''"
  by (simp add: grow_factory_def config0_def back_detect_def js_div_def)

lemma offset_back: "offset_seconds (val config0) ''back'' = 0"
  by (simp add: offset_seconds_def config0_def back_detect_def or_zero_def)

lemma step_back: "step (Render env0 props_back) s_ready = Inr s_back"
  by (simp add: rerender_def rendered_def commit_defs controller_factory_def grow_back offset_back
      new_DynamicVideoController_def ready_effect_def playback_effect_def
      s_ready_def s_back_def env0_def props0_def props_back_def ctl0_def)

lemma step_epoch: "step (Render env0 props_epoch) s_ready = Inr s_epoch"
  by (simp add: rerender_def rendered_def commit_defs s_ready_def s_epoch_def env0_def props0_def
      props_epoch_def)

lemmas scenario_defs = s_ready_def s_mounted_def env0_def props0_def ctl0_def envA_def envB_def
  propsB_def s_loadingA_def s_playingA_def s_pendingB_def s_waitingB_def s_loadingB_def
  s_staleA_def sourceA_def sourceB_def

lemmas render_defs = rerender_def rendered_def commit_defs controller_factory_def
  new_DynamicVideoController_def ready_effect_def scrubbing_effect_def playback_effect_def
  newPlayback_def Let_def

lemma source_B: "vod_source ''/api/'' ''front'' rangeB = sourceB"
  by (simp add: vod_source_def rangeB_def toString_def digits.simps sourceB_def)

lemma step_loadingA: "step (Render envA props0) s_ready = Inr s_loadingA"
  by (simp add: render_defs scenario_defs source_A)

lemma step_playingA: "step Playing s_loadingA = Inr s_playingA"
  by (simp add: onPlaying_def s_playingA_def)

lemma step_pendingB: "step (Render env0 propsB) s_loadingA = Inr s_pendingB"
  by (simp add: render_defs scenario_defs)

lemma step_waitingB: "step (Render env0 propsB) s_playingA = Inr s_waitingB"
  by (simp add: render_defs scenario_defs)

lemma step_loadingB: "step (Render envB propsB) s_pendingB = Inr s_loadingB"
  by (simp add: render_defs scenario_defs source_B [unfolded sourceB_def] recsA_def recsB_def)

lemma step_staleA: "step (PlayerLoaded sourceA) s_loadingB = Inr s_staleA"
  by (simp add: onPlayerLoaded_def scenario_defs)

lemma step_mounted_back: "step (Render env0 props_back) s_mounted = Inr s_mounted_back"
  by (simp add: render_defs grow_back s_mounted_def s_mounted_back_def env0_def props0_def
      props_back_def)

lemma step_scrubB: "step (Render env0 props_scrubB) s_playingA = Inr s_scrubB"
  by (simp add: render_defs scenario_defs props_scrubB_def s_scrubB_def)

subsection \<open>What each step changes\<close>

lemma ready_effect_eq:
  "ready_effect s =
     s\<lparr>calls := calls s @ (case controller s of None \<Rightarrow> [] | Some c \<Rightarrow> [OnControllerReady c])\<rparr>"
  by (simp add: ready_effect_def split: option.splits)

lemma scrubbing_effect_eq:
  "scrubbing_effect s = s\<lparr>isLoading := (isScrubbing (props s) \<or> isLoading s)\<rparr>"
  by (simp add: scrubbing_effect_def)

lemma playback_effect_frame:
  "props (playback_effect s) = props s" "env (playback_effect s) = env s"
  "grow (playback_effect s) = grow s" "grow_deps (playback_effect s) = grow_deps s"
  "previewController (playback_effect s) = previewController s"
  "controller_deps (playback_effect s) = controller_deps s"
  "ready_deps (playback_effect s) = ready_deps s"
  "scrubbing_deps (playback_effect s) = scrubbing_deps s"
  "playback_deps (playback_effect s) = playback_deps s"
  "next_ident (playback_effect s) = next_ident s"
  "controller_ident (playback_effect s) = controller_ident s"
  by (simp_all add: playback_effect_def Let_def controller_ident_def split: option.splits)

lemma playback_effect_ready_idents: "ready_idents (playback_effect s) = ready_idents s"
  by (auto simp: playback_effect_def Let_def ready_idents_def split: option.splits)

lemma ready_effect_frame:
  "props (ready_effect s) = props s" "env (ready_effect s) = env s"
  "grow (ready_effect s) = grow s" "grow_deps (ready_effect s) = grow_deps s"
  "previewController (ready_effect s) = previewController s"
  "controller (ready_effect s) = controller s"
  "controller_deps (ready_effect s) = controller_deps s"
  "ready_deps (ready_effect s) = ready_deps s"
  "isLoading (ready_effect s) = isLoading s" "source (ready_effect s) = source s"
  "scrubbing_deps (ready_effect s) = scrubbing_deps s"
  "playback_deps (ready_effect s) = playback_deps s"
  "next_ident (ready_effect s) = next_ident s"
  "controller_ident (ready_effect s) = controller_ident s"
  "ready_idents (ready_effect s) =
     ready_idents s @ (case controller_ident s of None \<Rightarrow> [] | Some i \<Rightarrow> [i])"
  by (simp_all add: ready_effect_eq ready_idents_def controller_ident_def split: option.splits)

lemma scrubbing_effect_frame:
  "props (scrubbing_effect s) = props s" "env (scrubbing_effect s) = env s"
  "grow (scrubbing_effect s) = grow s" "grow_deps (scrubbing_effect s) = grow_deps s"
  "previewController (scrubbing_effect s) = previewController s"
  "controller (scrubbing_effect s) = controller s"
  "controller_deps (scrubbing_effect s) = controller_deps s"
  "ready_deps (scrubbing_effect s) = ready_deps s"
  "source (scrubbing_effect s) = source s"
  "scrubbing_deps (scrubbing_effect s) = scrubbing_deps s"
  "playback_deps (scrubbing_effect s) = playback_deps s"
  "next_ident (scrubbing_effect s) = next_ident s"
  "calls (scrubbing_effect s) = calls s"
  "ready_idents (scrubbing_effect s) = ready_idents s"
  "controller_ident (scrubbing_effect s) = controller_ident s"
  by (simp_all add: scrubbing_effect_eq ready_idents_def controller_ident_def)

lemmas effect_frames = ready_effect_frame scrubbing_effect_frame playback_effect_frame
  playback_effect_ready_idents

lemma ready_idents_update:
  "ready_idents (s\<lparr>props := a1\<rparr>) = ready_idents s"
  "ready_idents (s\<lparr>env := a2\<rparr>) = ready_idents s"
  "ready_idents (s\<lparr>grow := a3\<rparr>) = ready_idents s"
  "ready_idents (s\<lparr>grow_deps := a4\<rparr>) = ready_idents s"
  "ready_idents (s\<lparr>previewController := a5\<rparr>) = ready_idents s"
  "ready_idents (s\<lparr>controller := a6\<rparr>) = ready_idents s"
  "ready_idents (s\<lparr>controller_deps := a7\<rparr>) = ready_idents s"
  "ready_idents (s\<lparr>ready_deps := a8\<rparr>) = ready_idents s"
  "ready_idents (s\<lparr>isLoading := a9\<rparr>) = ready_idents s"
  "ready_idents (s\<lparr>source := a10\<rparr>) = ready_idents s"
  "ready_idents (s\<lparr>scrubbing_deps := a11\<rparr>) = ready_idents s"
  "ready_idents (s\<lparr>playback_deps := a12\<rparr>) = ready_idents s"
  "ready_idents (s\<lparr>next_ident := a13\<rparr>) = ready_idents s"
  "controller_ident (s\<lparr>ready_deps := a8\<rparr>) = controller_ident s"
  "controller_ident (s\<lparr>scrubbing_deps := a11\<rparr>) = controller_ident s"
  "controller_ident (s\<lparr>playback_deps := a12\<rparr>) = controller_ident s"
  by (simp_all add: ready_idents_def controller_ident_def)

lemma commit_frame:
  "props (commit s) = props s" "env (commit s) = env s" "grow (commit s) = grow s"
  "grow_deps (commit s) = grow_deps s" "previewController (commit s) = previewController s"
  "controller_deps (commit s) = controller_deps s" "next_ident (commit s) = next_ident s"
  "controller_ident (commit s) = controller_ident s"
  "ready_deps (commit s) = controller_ident s"
  "ready_idents (commit s) =
     ready_idents s @ (if ready_deps s \<noteq> controller_ident s
                       then (case controller_ident s of None \<Rightarrow> [] | Some i \<Rightarrow> [i]) else [])"
  by (simp_all add: commit_defs Let_def effect_frames ready_idents_update
      controller_ident_def [symmetric])

lemma factory_ident:
  "map_option ident (controller_factory n cam cfg el pc scrub) =
     (if available (cam, cfg, el, pc) then Some n else None)"
  by (simp add: controller_factory_def split: option.splits)

lemma initial_sel:
  "props (initial e p g) = p" "env (initial e p g) = e" "grow (initial e p g) = g"
  "grow_deps (initial e p g) = (camera p, config e)"
  "previewController (initial e p g) = None"
  "controller (initial e p g) = None"
  "controller_deps (initial e p g) = (camera p, config e, None, None)"
  "ready_deps (initial e p g) = None"
  "isLoading (initial e p g) = False"
  "source (initial e p g) = vod_source (apiHost e) (camera p) (timeRange p)"
  "scrubbing_deps (initial e p g) = isScrubbing p"
  "playback_deps (initial e p g) = (None, recordings e)"
  "next_ident (initial e p g) = 0"
  "calls (initial e p g) = []"
  "controller_ident (initial e p g) = None"
  "ready_idents (initial e p g) = []"
  by (simp_all add: initial_def controller_factory_def controller_ident_def ready_idents_def
      split: option.splits)

lemma rendered_sel:
  "props (rendered e p g s) = p" "env (rendered e p g s) = e" "grow (rendered e p g s) = g"
  "grow_deps (rendered e p g s) = (camera p, config e)"
  "previewController (rendered e p g s) = previewController s"
  "controller (rendered e p g s) =
     (if controller_deps s \<noteq> (camera p, config e, playerRef e, previewController s)
      then controller_factory (next_ident s) (camera p) (config e) (playerRef e)
             (previewController s) (isScrubbing p)
      else controller s)"
  "controller_deps (rendered e p g s) = (camera p, config e, playerRef e, previewController s)"
  "ready_deps (rendered e p g s) = ready_deps s"
  "isLoading (rendered e p g s) = isLoading s"
  "source (rendered e p g s) = source s"
  "scrubbing_deps (rendered e p g s) = scrubbing_deps s"
  "playback_deps (rendered e p g s) = playback_deps s"
  "calls (rendered e p g s) = calls s"
  "ready_idents (rendered e p g s) = ready_idents s"
  by (simp_all add: rendered_def Let_def ready_idents_def)

lemma rendered_ident:
  "controller_ident (rendered e p g s) =
     (if controller_deps s \<noteq> (camera p, config e, playerRef e, previewController s)
      then (if available (camera p, config e, playerRef e, previewController s)
            then Some (next_ident s) else None)
      else controller_ident s)"
  by (simp add: controller_ident_def rendered_sel factory_ident)

lemma mount_cases:
  assumes "mount e p = Inr s"
  obtains g where "grow_factory (config e) (camera p) = Inr g"
    and "s = playback_effect (scrubbing_effect (ready_effect (initial e p g)))"
  using assms by (auto simp: mount_def split: sum.splits)

lemma rerender_cases:
  assumes "rerender e p s = Inr s'"
  obtains g where "s' = commit (rendered e p g s)"
    and "(if grow_deps s = (camera p, config e) then Inr (grow s)
          else grow_factory (config e) (camera p)) = Inr g"
  using assms by (auto simp: rerender_def split: sum.splits)

lemma handler_frames:
  "ready_idents (setPreviewController pc s) = ready_idents s"
  "ready_idents (onPlayerLoaded s) = ready_idents s"
  "ready_idents (onTimeUpdate time s) = ready_idents s"
  "ready_idents (onPlaying s) = ready_idents s"
  "ready_idents (clipEnded s) = ready_idents s"
  "controller (setPreviewController pc s) = controller s"
  "controller (onPlayerLoaded s) = controller s"
  "controller (onTimeUpdate time s) = controller s"
  "controller (onPlaying s) = controller s"
  "controller (clipEnded s) = controller s"
  "controller_deps (setPreviewController pc s) = controller_deps s"
  "controller_deps (onPlayerLoaded s) = controller_deps s"
  "controller_deps (onTimeUpdate time s) = controller_deps s"
  "controller_deps (onPlaying s) = controller_deps s"
  "controller_deps (clipEnded s) = controller_deps s"
  "ready_deps (setPreviewController pc s) = ready_deps s"
  "ready_deps (onPlayerLoaded s) = ready_deps s"
  "ready_deps (onTimeUpdate time s) = ready_deps s"
  "ready_deps (onPlaying s) = ready_deps s"
  "ready_deps (clipEnded s) = ready_deps s"
  "previewController (setPreviewController pc s) = Some pc"
  "previewController (onPlayerLoaded s) = previewController s"
  "previewController (onTimeUpdate time s) = previewController s"
  "previewController (onPlaying s) = previewController s"
  "previewController (clipEnded s) = previewController s"
  by (simp_all add: setPreviewController_def onPlayerLoaded_def onTimeUpdate_def onPlaying_def
      clipEnded_def ready_idents_def split: option.splits)

lemma ready_once_mount: "mount e p = Inr s \<Longrightarrow> ready_once s"
  by (erule mount_cases) (simp add: ready_once_def effect_frames initial_sel)

lemma ready_once_rerender:
  assumes inv: "ready_once s" and st: "stable (Render e p) s" and r: "rerender e p s = Inr s'"
  shows "ready_once s'"
proof -
  from r obtain g where s': "s' = commit (rendered e p g s)"
    by (rule rerender_cases)
  obtain cam cfg el pc where deps: "controller_deps s = (cam, cfg, el, pc)"
    by (cases "controller_deps s") auto
  let ?new = "(camera p, config e, playerRef e, previewController s)"
  show ?thesis
  proof (cases "controller_deps s = ?new")
    case True
    with inv show ?thesis
      by (simp add: s' ready_once_def commit_frame rendered_sel rendered_ident)
  next
    case False
    have "\<not> available (controller_deps s)"
    proof
      assume "available (controller_deps s)"
      with deps inv st have "controller_deps s = ?new"
        by (auto simp: ready_once_def)
      with False show False by simp
    qed
    with inv have "controller_ident s = None" "ready_deps s = None" "ready_idents s = []"
      by (auto simp: ready_once_def)
    with False show ?thesis
      by (simp add: s' ready_once_def commit_frame rendered_sel rendered_ident)
  qed
qed

lemma ready_once_step:
  assumes inv: "ready_once s" and st: "stable ev s" and r: "step ev s = Inr s'"
  shows "ready_once s'"
proof (cases ev)
  case (Render e p)
  with assms show ?thesis using ready_once_rerender by simp
next
  case (PreviewControllerReady pc)
  with assms show ?thesis
    by (auto simp: ready_once_def handler_frames controller_ident_def split: prod.splits)
next
  case (PlayerLoaded src)
  with inv r show ?thesis
    by (auto simp: ready_once_def handler_frames controller_ident_def)
next
  case (TimeUpdate time)
  with inv r show ?thesis
    by (auto simp: ready_once_def handler_frames controller_ident_def)
next
  case Playing
  with inv r show ?thesis
    by (auto simp: ready_once_def handler_frames controller_ident_def)
next
  case ClipEnded
  with inv r show ?thesis
    by (auto simp: ready_once_def handler_frames controller_ident_def)
qed

lemma ready_once_run:
  "ready_once s \<Longrightarrow> stable_run evs s \<Longrightarrow> run evs s = Inr s' \<Longrightarrow> ready_once s'"
proof (induction evs arbitrary: s)
  case Nil
  then show ?case by simp
next
  case (Cons ev evs)
  from Cons.prems obtain s1 where s1: "step ev s = Inr s1" "run evs s1 = Inr s'"
    by (auto split: sum.splits)
  with Cons.prems have "stable ev s" "stable_run evs s1" by auto
  with Cons.prems(1) s1 show ?case
    using ready_once_step Cons.IH by blast
qed

lemma handler_frames_closure:
  "props (setPreviewController pc s) = props s" "env (setPreviewController pc s) = env s"
  "grow (setPreviewController pc s) = grow s" "grow_deps (setPreviewController pc s) = grow_deps s"
  "props (onPlayerLoaded s) = props s" "env (onPlayerLoaded s) = env s"
  "grow (onPlayerLoaded s) = grow s" "grow_deps (onPlayerLoaded s) = grow_deps s"
  "props (onTimeUpdate time s) = props s" "env (onTimeUpdate time s) = env s"
  "grow (onTimeUpdate time s) = grow s" "grow_deps (onTimeUpdate time s) = grow_deps s"
  "props (onPlaying s) = props s" "env (onPlaying s) = env s"
  "grow (onPlaying s) = grow s" "grow_deps (onPlaying s) = grow_deps s"
  "props (clipEnded s) = props s" "env (clipEnded s) = env s"
  "grow (clipEnded s) = grow s" "grow_deps (clipEnded s) = grow_deps s"
  by (simp_all add: setPreviewController_def onPlayerLoaded_def onTimeUpdate_def onPlaying_def
      clipEnded_def split: option.splits)

lemma grow_current_mount: "mount e p = Inr s \<Longrightarrow> grow_current s"
  by (erule mount_cases) (simp add: grow_current_def effect_frames initial_sel)

lemma grow_current_rerender:
  assumes "grow_current s" and "rerender e p s = Inr s'"
  shows "grow_current s'"
proof -
  from assms(2) obtain g where s': "s' = commit (rendered e p g s)"
    and g: "(if grow_deps s = (camera p, config e) then Inr (grow s)
             else grow_factory (config e) (camera p)) = Inr g"
    by (rule rerender_cases)
  from g assms(1) have "grow_factory (config e) (camera p) = Inr g"
    by (auto simp: grow_current_def split: if_splits)
  then show ?thesis
    by (simp add: s' grow_current_def commit_frame rendered_sel)
qed

lemma grow_current_step:
  assumes "grow_current s" and "step ev s = Inr s'"
  shows "grow_current s'"
proof (cases ev)
  case (Render e p)
  with assms show ?thesis using grow_current_rerender by simp
qed (use assms in \<open>auto simp: grow_current_def handler_frames_closure\<close>)

lemma grow_current_run: "grow_current s \<Longrightarrow> run evs s = Inr s' \<Longrightarrow> grow_current s'"
proof (induction evs arbitrary: s)
  case Nil
  then show ?case by simp
next
  case (Cons ev evs)
  then show ?case by (auto split: sum.splits dest: grow_current_step)
qed

lemma ready_hook_sel:
  "props (ready_hook s) = props s" "env (ready_hook s) = env s"
  "controller (ready_hook s) = controller s" "isLoading (ready_hook s) = isLoading s"
  "source (ready_hook s) = source s" "scrubbing_deps (ready_hook s) = scrubbing_deps s"
  "playback_deps (ready_hook s) = playback_deps s"
  by (simp_all add: ready_hook_def Let_def ready_effect_eq)

lemma ready_hook_calls:
  "sessions (ready_hook s) = sessions s" "autoplays (ready_hook s) = autoplays s"
  by (auto simp: ready_hook_def Let_def ready_effect_eq sessions_def autoplays_def
      split: option.splits)

lemma scrubbing_hook_sel:
  "props (scrubbing_hook s) = props s" "env (scrubbing_hook s) = env s"
  "controller (scrubbing_hook s) = controller s" "source (scrubbing_hook s) = source s"
  "playback_deps (scrubbing_hook s) = playback_deps s"
  "sessions (scrubbing_hook s) = sessions s" "autoplays (scrubbing_hook s) = autoplays s"
  "isLoading (scrubbing_hook s) =
     (isLoading s \<or> (scrubbing_deps s \<noteq> isScrubbing (props s) \<and> isScrubbing (props s)))"
  by (auto simp: scrubbing_hook_def Let_def scrubbing_effect_eq sessions_def autoplays_def)

lemma playback_runs_hooks:
  "playback_runs (ready_hook s) = playback_runs s"
  "playback_runs (scrubbing_hook s) = playback_runs s"
  by (simp_all add: playback_runs_def controller_ident_def ready_hook_sel scrubbing_hook_sel)

lemma playback_hook_skip: "\<not> playback_runs s \<Longrightarrow>
    source (playback_hook s) = source s \<and> isLoading (playback_hook s) = isLoading s
    \<and> controller (playback_hook s) = controller s
    \<and> sessions (playback_hook s) = sessions s \<and> autoplays (playback_hook s) = autoplays s"
  by (auto simp: playback_hook_def playback_runs_def controller_ident_def Let_def
      playback_effect_def sessions_def autoplays_def split: option.splits)

lemma playback_hook_run:
  assumes "playback_runs s" and "controller s = Some c" and "recordings (env s) = Some recs"
  shows "source (playback_hook s)
           = vod_source (apiHost (env s)) (camera (props s)) (timeRange (props s))"
    and "isLoading (playback_hook s)"
    and "controller (playback_hook s) = Some (Obj (ident c) (newPlayback (val c) (val recs)))"
    and "sessions (playback_hook s) = sessions s @ [val recs]"
    and "autoplays (playback_hook s) =
           autoplays s @ (case playerRef (env s) of
                            None \<Rightarrow> []
                          | Some el \<Rightarrow> [(el, \<not> isScrubbing (props s))])"
  using assms
  by (auto simp: playback_hook_def playback_runs_def controller_ident_def Let_def
      playback_effect_def sessions_def autoplays_def split: option.splits)

lemma commit_skip:
  assumes "\<not> playback_runs s"
  shows "source (commit s) = source s" and "controller (commit s) = controller s"
    and "sessions (commit s) = sessions s" and "autoplays (commit s) = autoplays s"
    and "isLoading (commit s) =
           (isLoading s \<or> (scrubbing_deps s \<noteq> isScrubbing (props s) \<and> isScrubbing (props s)))"
  using assms playback_hook_skip [of "scrubbing_hook (ready_hook s)"]
  by (simp_all add: commit_def playback_runs_hooks ready_hook_sel ready_hook_calls
      scrubbing_hook_sel)

lemma commit_run:
  assumes "playback_runs s" and "controller s = Some c" and "recordings (env s) = Some recs"
  shows "source (commit s)
           = vod_source (apiHost (env s)) (camera (props s)) (timeRange (props s))"
    and "isLoading (commit s)"
    and "controller (commit s) = Some (Obj (ident c) (newPlayback (val c) (val recs)))"
    and "sessions (commit s) = sessions s @ [val recs]"
    and "autoplays (commit s) =
           autoplays s @ (case playerRef (env s) of
                            None \<Rightarrow> []
                          | Some el \<Rightarrow> [(el, \<not> isScrubbing (props s))])"
  using assms playback_hook_run [of "scrubbing_hook (ready_hook s)" c recs]
  by (simp_all add: commit_def playback_runs_hooks ready_hook_sel ready_hook_calls
      scrubbing_hook_sel cong: option.case_cong)

lemma rendered_playback:
  "sessions (rendered e p g s) = sessions s" "autoplays (rendered e p g s) = autoplays s"
  by (simp_all add: rendered_def Let_def sessions_def autoplays_def)

lemma handler_frames_ident:
  "next_ident (setPreviewController pc s) = next_ident s"
  "next_ident (onPlayerLoaded s) = next_ident s"
  "next_ident (onTimeUpdate time s) = next_ident s"
  "next_ident (onPlaying s) = next_ident s"
  "next_ident (clipEnded s) = next_ident s"
  "controller_ident (setPreviewController pc s) = controller_ident s"
  "controller_ident (onPlayerLoaded s) = controller_ident s"
  "controller_ident (onTimeUpdate time s) = controller_ident s"
  "controller_ident (onPlaying s) = controller_ident s"
  "controller_ident (clipEnded s) = controller_ident s"
  by (simp_all add: setPreviewController_def onPlayerLoaded_def onTimeUpdate_def onPlaying_def
      clipEnded_def controller_ident_def split: option.splits)

lemma rendered_next_ident:
  "next_ident (rendered e p g s) =
     (if controller_deps s \<noteq> (camera p, config e, playerRef e, previewController s)
      then Suc (next_ident s) else next_ident s)"
  by (simp add: rendered_def Let_def)

lemma list_all_less_Suc: "list_all (\<lambda>i. i < n) xs \<Longrightarrow> list_all (\<lambda>i. i < Suc n) xs"
  by (induction xs) auto

lemma idents_fresh_mount: "mount e p = Inr s \<Longrightarrow> idents_fresh s"
  by (erule mount_cases) (simp add: idents_fresh_def effect_frames initial_sel)

lemma idents_fresh_rerender:
  assumes "idents_fresh s" and "rerender e p s = Inr s'"
  shows "idents_fresh s'"
proof -
  from assms(2) obtain g where s': "s' = commit (rendered e p g s)"
    by (rule rerender_cases)
  from assms(1) show ?thesis
    by (auto simp: s' idents_fresh_def commit_frame rendered_sel rendered_ident
        rendered_next_ident list_all_less_Suc split: option.splits if_splits)
qed

lemma idents_fresh_step:
  assumes "idents_fresh s" and "step ev s = Inr s'"
  shows "idents_fresh s'"
proof (cases ev)
  case (Render e p)
  with assms show ?thesis using idents_fresh_rerender by simp
qed (use assms in \<open>auto simp: idents_fresh_def handler_frames handler_frames_ident
      handler_frames_closure cong: option.case_cong\<close>)

lemma idents_fresh_run: "idents_fresh s \<Longrightarrow> run evs s = Inr s' \<Longrightarrow> idents_fresh s'"
proof (induction evs arbitrary: s)
  case Nil
  then show ?case by simp
next
  case (Cons ev evs)
  then show ?case by (auto split: sum.splits dest: idents_fresh_step)
qed

lemma camera_change_fires:
  assumes f: "idents_fresh s" and r: "rerender e p s = Inr s'"
    and c: "camera p \<noteq> camera (props s)"
    and a: "available (camera p, config e, playerRef e, previewController s)"
  shows "controller_ident s' = Some (next_ident s)"
    and "ready_idents s' = ready_idents s @ [next_ident s]"
    and "next_ident s \<notin> set (ready_idents s)"
proof -
  from r obtain g where s': "s' = commit (rendered e p g s)"
    by (rule rerender_cases)
  from f c have d: "controller_deps s \<noteq> (camera p, config e, playerRef e, previewController s)"
    by (auto simp: idents_fresh_def)
  from f have n: "ready_deps s \<noteq> Some (next_ident s)"
    by (auto simp: idents_fresh_def split: option.splits)
  from d a show "controller_ident s' = Some (next_ident s)"
    by (simp add: s' commit_frame rendered_ident)
  from d a n show "ready_idents s' = ready_idents s @ [next_ident s]"
    by (simp add: s' commit_frame rendered_ident rendered_sel)
  from f show "next_ident s \<notin> set (ready_idents s)"
    by (auto simp: idents_fresh_def list_all_iff)
qed

lemma camera_change_unavailable:
  assumes r: "rerender e p s = Inr s'"
    and c: "fst (controller_deps s) \<noteq> camera p"
    and a: "\<not> available (camera p, config e, playerRef e, previewController s)"
  shows "controller s' = None" and "ready_idents s' = ready_idents s"
proof -
  from r obtain g where s': "s' = commit (rendered e p g s)"
    by (rule rerender_cases)
  from c have d: "controller_deps s \<noteq> (camera p, config e, playerRef e, previewController s)"
    by auto
  from d a have i: "controller_ident s' = None"
    by (simp add: s' commit_frame rendered_ident)
  then show "controller s' = None"
    by (simp add: controller_ident_def)
  from d a show "ready_idents s' = ready_idents s"
    by (auto simp: s' commit_frame rendered_ident rendered_sel)
qed

section \<open>The claims\<close>

subsection \<open>C1: the controller-ready callback\<close>

text \<open>
  C1 states that \<^verbatim>\<open>onControllerReady\<close> is invoked exactly once in a component lifetime,
  when configuration, media element and preview controller are first available
  together, however often those three re-resolve to equal values.

  The memo of the controller lists \<^verbatim>\<open>camera\<close> among its dependencies, so a change of the
  camera prop can build a second controller and fire the effect again. What holds
  instead, in three parts. In a run in which the camera stays the same and each of the
  three inputs, once resolved, re-resolves to the same value (\<open>stable_run\<close>), the
  controllers handed to \<^verbatim>\<open>onControllerReady\<close> are exactly the current one, if there is
  one, and none otherwise, and there is a controller exactly when the last render saw
  all three inputs: the callback has fired once from the first render that sees all
  three on, and not before. In any run, a render that changes the camera, does not throw
  and sees all three inputs builds a controller of a new identity and calls
  \<^verbatim>\<open>onControllerReady\<close> once more, with that controller. In any run, a render that changes
  the camera, does not throw and misses one of the three inputs leaves no controller and
  calls nothing.
\<close>

theorem controller_ready_once:
  "(mount e p = Inr s0 \<and> stable_run evs s0 \<and> run evs s0 = Inr s \<longrightarrow>
      ready_idents s = (case controller s of None \<Rightarrow> [] | Some c \<Rightarrow> [ident c])
      \<and> (controller s \<noteq> None) = available (controller_deps s)
      \<and> length (ready_idents s) = (if available (controller_deps s) then 1 else 0))
   \<and> (mount e p = Inr s0 \<and> run evs s0 = Inr s \<and> rerender e' p' s = Inr s'
        \<and> camera p' \<noteq> camera (props s)
        \<and> available (camera p', config e', playerRef e', previewController s) \<longrightarrow>
      controller_ident s' = Some (next_ident s)
      \<and> ready_idents s' = ready_idents s @ [next_ident s]
      \<and> next_ident s \<notin> set (ready_idents s))
   \<and> (mount e p = Inr s0 \<and> run evs s0 = Inr s \<and> rerender e' p' s = Inr s'
        \<and> camera p' \<noteq> camera (props s)
        \<and> \<not> available (camera p', config e', playerRef e', previewController s) \<longrightarrow>
      controller s' = None \<and> ready_idents s' = ready_idents s)"
proof -
  have 1: "ready_idents s = (case controller s of None \<Rightarrow> [] | Some c \<Rightarrow> [ident c])
      \<and> (controller s \<noteq> None) = available (controller_deps s)
      \<and> length (ready_idents s) = (if available (controller_deps s) then 1 else 0)"
    if "mount e p = Inr s0" "stable_run evs s0" "run evs s0 = Inr s"
  proof -
    from that have "ready_once s"
      using ready_once_mount ready_once_run by blast
    then show ?thesis
      by (cases "controller s") (auto simp: ready_once_def controller_ident_def)
  qed
  have f: "idents_fresh s" if "mount e p = Inr s0" "run evs s0 = Inr s"
    using that idents_fresh_mount idents_fresh_run by blast
  have 2: "controller_ident s' = Some (next_ident s)
      \<and> ready_idents s' = ready_idents s @ [next_ident s]
      \<and> next_ident s \<notin> set (ready_idents s)"
    if "mount e p = Inr s0" "run evs s0 = Inr s" "rerender e' p' s = Inr s'"
      "camera p' \<noteq> camera (props s)"
      "available (camera p', config e', playerRef e', previewController s)"
    using camera_change_fires [OF f [OF that(1,2)] that(3-5)] by blast
  have 3: "controller s' = None \<and> ready_idents s' = ready_idents s"
    if "mount e p = Inr s0" "run evs s0 = Inr s" "rerender e' p' s = Inr s'"
      "camera p' \<noteq> camera (props s)"
      "\<not> available (camera p', config e', playerRef e', previewController s)"
  proof -
    from f [OF that(1,2)] that(4) have "fst (controller_deps s) \<noteq> camera p'"
      by (auto simp: idents_fresh_def)
    from camera_change_unavailable [OF that(3) this that(5)] show ?thesis
      by blast
  qed
  from 1 2 3 show ?thesis
    by blast
qed

text \<open>
  The theorem at the scenario: the preview player reports its controller, the component
  renders, and both happen once more with the same values; then the camera changes to
  \<open>back\<close>. And the camera changes to \<open>back\<close> right after the mount, before the preview
  controller is there.
\<close>

theorem controller_ready_once_witness:
  "mount env0 props0 = Inr s_mounted
   \<and> stable_run [PreviewControllerReady pc0, Render env0 props0,
                  PreviewControllerReady pc0, Render env0 props0] s_mounted
   \<and> run [PreviewControllerReady pc0, Render env0 props0,
           PreviewControllerReady pc0, Render env0 props0] s_mounted = Inr s_ready
   \<and> ready_idents s_ready = [0]
   \<and> available (controller_deps s_ready)
   \<and> rerender env0 props_back s_ready = Inr s_back
   \<and> camera props_back \<noteq> camera (props s_ready)
   \<and> available (camera props_back, config env0, playerRef env0, previewController s_ready)
   \<and> ready_idents s_back = [0, 1]
   \<and> rerender env0 props_back s_mounted = Inr s_mounted_back
   \<and> \<not> available (camera props_back, config env0, playerRef env0, previewController s_mounted)
   \<and> ready_idents s_mounted_back = []"
proof -
  let ?evs = "[PreviewControllerReady pc0, Render env0 props0,
               PreviewControllerReady pc0, Render env0 props0]"
  have r: "run ?evs s_mounted = Inr s_ready"
    by (simp only: run.simps step_preview step_ready step_preview_again step_ready_again
        sum.case)
  have st: "stable_run ?evs s_mounted"
    by (simp only: stable_run.simps step_preview step_ready step_preview_again
        step_ready_again sum.case stable_scenario simp_thms)
  have a: "available (controller_deps s_ready)"
    by (simp add: s_ready_def)
  have b: "rerender env0 props_back s_ready = Inr s_back"
    using step_back by simp
  have c: "camera props_back \<noteq> camera (props s_ready)"
    "available (camera props_back, config env0, playerRef env0, previewController s_ready)"
    "next_ident s_ready = 1" "camera props_back \<noteq> camera (props s_mounted)"
    "\<not> available (camera props_back, config env0, playerRef env0, previewController s_mounted)"
    by (simp_all add: s_ready_def s_mounted_def props_back_def props0_def env0_def)
  have m: "rerender env0 props_back s_mounted = Inr s_mounted_back"
    using step_mounted_back by simp
  have e: "run [] s_mounted = Inr s_mounted"
    by simp
  note t1 = controller_ready_once [of env0 props0 s_mounted ?evs s_ready env0 props_back s_back]
  note t2 = controller_ready_once [of env0 props0 s_mounted "[]" s_mounted env0 props_back
      s_mounted_back]
  from t1 [THEN conjunct1] mount_scenario st r
  have 1: "ready_idents s_ready = [0]"
    using a by (simp add: s_ready_def)
  from t1 [THEN conjunct2, THEN conjunct1] mount_scenario r b c 1
  have 2: "ready_idents s_back = [0, 1]"
    by simp
  from t2 [THEN conjunct2, THEN conjunct2] mount_scenario e m c
  have 3: "ready_idents s_mounted_back = []"
    by (simp add: ready_idents_def s_mounted_def)
  from mount_scenario st r 1 a b c(1,2,5) 2 m 3 show ?thesis
    by blast
qed

text \<open>
  C1 as stated fails: configuration, element and preview controller are the same in
  every render, the camera prop changes from \<open>front\<close> to \<open>back\<close>, and the callback is
  invoked twice, with the controllers of identity 0 and 1.
\<close>

theorem controller_ready_twice_counterexample:
  "map_sum id ready_idents
     (mounted env0 props0
        [PreviewControllerReady pc0, Render env0 props0, Render env0 props_back]) = Inr [0, 1]"
proof -
  have "run [PreviewControllerReady pc0, Render env0 props0, Render env0 props_back] s_mounted
        = Inr s_back"
    by (simp only: run.simps step_preview step_ready step_back sum.case)
  then show ?thesis
    by (simp add: mounted_def mount_scenario ready_idents_def s_back_def)
qed

subsection \<open>C2: a load event of a superseded time range\<close>

text \<open>
  C2 states that a \<open>loaded\<close> event of time range A that arrives after \<^verbatim>\<open>newPlayback\<close> was
  issued for range B causes no seek.

  The component keeps no tag of the session: \<^verbatim>\<open>onPlayerLoaded\<close> takes no argument and
  reads only the controller and \<^verbatim>\<open>startTimestamp\<close>. What holds instead: a \<open>loaded\<close> event
  for a source other than the current one is handled as one for the current source is,
  and with a controller and a start timestamp that is not zero it calls
  \<^verbatim>\<open>seekToTimestamp(startTimestamp, true)\<close> once.
\<close>

theorem stale_loaded_still_seeks:
  assumes "controller s = Some c" and "startTimestamp (props s) = Some t" and "t \<noteq> 0"
    and "src \<noteq> source s"
  shows "step (PlayerLoaded src) s = Inr (s\<lparr>calls := calls s @ [SeekToTimestamp c t True]\<rparr>)
         \<and> step (PlayerLoaded src) s = step (PlayerLoaded (source s)) s"
  using assms by (simp add: onPlayerLoaded_def)

text \<open>The theorem after range B has superseded range A, at the load event of A's source.\<close>

theorem stale_loaded_still_seeks_witness:
  "controller s_loadingB = Some (Obj 0 (ctl0\<lparr>session_recordings := val recsB\<rparr>))
   \<and> startTimestamp (props s_loadingB) = Some 1500
   \<and> sourceA \<noteq> source s_loadingB
   \<and> step (PlayerLoaded sourceA) s_loadingB
       = Inr (s_loadingB\<lparr>calls := calls s_loadingB
           @ [SeekToTimestamp (Obj 0 (ctl0\<lparr>session_recordings := val recsB\<rparr>)) 1500 True]\<rparr>)"
proof -
  have h: "controller s_loadingB = Some (Obj 0 (ctl0\<lparr>session_recordings := val recsB\<rparr>))"
    "startTimestamp (props s_loadingB) = Some 1500" "(1500::rat) \<noteq> 0"
    "sourceA \<noteq> source s_loadingB"
    by (simp_all add: scenario_defs)
  from stale_loaded_still_seeks [OF h] h show ?thesis
    by blast
qed

text \<open>
  C2 as stated fails: the recordings of range A resolve, the range changes to B, the
  recordings of B resolve (\<^verbatim>\<open>newPlayback\<close> was called for A and then for B, and the
  source is B's), and then the load event of A's source arrives. The one seek in the log
  is the one this stale event caused.
\<close>

theorem stale_loaded_counterexample:
  "mounted env0 props0
     [PreviewControllerReady pc0, Render env0 props0, Render envA props0, Render env0 propsB,
      Render envB propsB, PlayerLoaded sourceA] = Inr s_staleA
   \<and> source s_staleA = sourceB
   \<and> sessions s_staleA = [val recsA, val recsB]
   \<and> filter is_seek (calls s_staleA)
       = [SeekToTimestamp (Obj 0 (ctl0\<lparr>session_recordings := val recsB\<rparr>)) 1500 True]"
proof -
  have "mounted env0 props0
     [PreviewControllerReady pc0, Render env0 props0, Render envA props0, Render env0 propsB,
      Render envB propsB, PlayerLoaded sourceA] = Inr s_staleA"
    by (simp only: mounted_def mount_scenario run.simps step_preview step_ready step_loadingA
        step_pendingB step_loadingB step_staleA sum.case)
  then show ?thesis
    by (simp add: scenario_defs sessions_def)
qed

subsection \<open>C3: the mode the controller reads\<close>



subsection \<open>C4: which player is visible\<close>

text \<open>
  C4: in every state the full player is visible exactly when neither \<^verbatim>\<open>isScrubbing\<close> nor
  \<^verbatim>\<open>isLoading\<close> holds, the preview player exactly when one of them holds, and so exactly
  one of the two is visible. The two class names are the ones the markup carries.
\<close>

theorem visibility_rule:
  "(player_visibility s = ''visible'' \<longleftrightarrow> \<not> isScrubbing (props s) \<and> \<not> isLoading s)
   \<and> (preview_visibility s = ''visible'' \<longleftrightarrow> isScrubbing (props s) \<or> isLoading s)
   \<and> (player_visibility s = ''visible'') \<noteq> (preview_visibility s = ''visible'')
   \<and> player_visibility s \<in> {''visible'', ''hidden''}
   \<and> preview_visibility s \<in> {''visible'', ''hidden''}
   \<and> player_class (view s) = ''w-full relative '' @ player_visibility s
   \<and> preview_class (view s) = preview_visibility s @ '' '' @ grow s"
  by (simp add: player_visibility_def preview_visibility_def view_def)

text \<open>The theorem at the scenario, before and while the player loads.\<close>

theorem visibility_rule_witness:
  "player_visibility s_ready = ''visible'' \<and> preview_visibility s_ready \<noteq> ''visible''
   \<and> player_visibility (s_ready\<lparr>isLoading := True\<rparr>) \<noteq> ''visible''
   \<and> preview_visibility (s_ready\<lparr>isLoading := True\<rparr>) = ''visible''"
proof -
  have "\<not> isScrubbing (props s_ready)" "\<not> isLoading s_ready"
    by (simp_all add: s_ready_def props0_def)
  then show ?thesis
    using visibility_rule [of s_ready] visibility_rule [of "s_ready\<lparr>isLoading := True\<rparr>"]
    by simp
qed

subsection \<open>C5: progress is the raw time plus the offset\<close>

text \<open>
  C5: for the controller the component builds for a camera of the configuration, the
  annotation offset is the camera's \<^verbatim>\<open>annotation_offset\<close> (milliseconds) divided by 1000,
  and \<^verbatim>\<open>getProgress(t)\<close> is \<open>t\<close> plus that offset; a time update, the one place where the
  component calls it, leaves the controller as it was. The division is the component's;
  \<^verbatim>\<open>getProgress\<close> is the spec's.
\<close>

theorem progress_adds_offset:
  assumes "controller_factory n cam (Some cfg) el pc scrub = Some c"
    and "map_of (cameras (val cfg)) cam = Some cc"
  shows "annotationOffset (val c) = annotation_offset (detect cc) / 1000
         \<and> getProgress (val c) t = t + annotation_offset (detect cc) / 1000
         \<and> controller (onTimeUpdate t s) = controller s"
  using assms
  by (auto simp: controller_factory_def new_DynamicVideoController_def offset_seconds_def
      or_zero_def getProgress_def handler_frames split: option.splits)

text \<open>The theorem at the scenario: 5000 milliseconds, raw time 3, progress 8.\<close>

theorem progress_adds_offset_witness:
  "controller_factory 0 ''front'' (Some config0) (Some el0) (Some pc0) False = Some (Obj 0 ctl0)
   \<and> map_of (cameras (val config0)) ''front'' = Some \<lparr>detect = front_detect\<rparr>
   \<and> annotationOffset ctl0 = 5
   \<and> getProgress ctl0 3 = 8"
proof -
  have f: "controller_factory 0 ''front'' (Some config0) (Some el0) (Some pc0) False
             = Some (Obj 0 ctl0)"
    by (simp add: controller_factory_def offset_front new_DynamicVideoController_def ctl0_def)
  have m: "map_of (cameras (val config0)) ''front'' = Some \<lparr>detect = front_detect\<rparr>"
    by (simp add: config0_def)
  from progress_adds_offset [OF f m, of 3] f m
  show ?thesis by (simp add: front_detect_def)
qed

subsection \<open>C6: a new playback session\<close>

text \<open>
  C6 states that whenever the time range changes or the recording list resolves, the
  component recomputes the source, sets loading, sets the element's autoplay to the
  negation of \<^verbatim>\<open>isScrubbing\<close> and calls \<^verbatim>\<open>newPlayback\<close> with the recordings, an empty list
  while the request has not resolved.

  The effect depends on the controller and the recordings only, and returns at once
  while either is missing. What holds instead, for every render: while the recordings
  are unresolved or there is no controller, and whenever controller and recordings are
  the ones the effect last saw (also when the time range has changed), the source stays
  as it is, neither \<^verbatim>\<open>newPlayback\<close> nor the autoplay assignment happens, and the loading
  flag is changed by the effect on \<^verbatim>\<open>isScrubbing\<close> alone: it becomes true if
  \<^verbatim>\<open>isScrubbing\<close> is true and is not the value that effect last ran with, and stays as it
  is otherwise. When the recordings are resolved, a controller exists and one of the two
  is new, the source becomes \<open>{base}vod/{camera}/start/{start}/end/{end}/master.m3u8\<close>
  for the camera and range of this render, loading becomes true, autoplay is set to the
  negation of \<^verbatim>\<open>isScrubbing\<close> (if the element is there) and \<^verbatim>\<open>newPlayback\<close> is called
  once, with the resolved recordings.
\<close>

theorem new_playback_when_recordings_resolve:
  assumes "rerender e p s = Inr s'"
  shows "(recordings e = None \<or> controller s' = None \<longrightarrow>
            source s' = source s \<and> sessions s' = sessions s \<and> autoplays s' = autoplays s
            \<and> isLoading s'
                = (isLoading s \<or> (scrubbing_deps s \<noteq> isScrubbing p \<and> isScrubbing p)))
         \<and> (playback_deps s = (controller_ident s', recordings e) \<longrightarrow>
            source s' = source s \<and> sessions s' = sessions s \<and> autoplays s' = autoplays s
            \<and> isLoading s'
                = (isLoading s \<or> (scrubbing_deps s \<noteq> isScrubbing p \<and> isScrubbing p)))
         \<and> (recordings e = Some recs \<and> controller s' = Some c'
              \<and> playback_deps s \<noteq> (Some (ident c'), Some recs) \<longrightarrow>
            source s' = vod_source (apiHost e) (camera p) (timeRange p)
            \<and> isLoading s'
            \<and> session_recordings (val c') = val recs
            \<and> sessions s' = sessions s @ [val recs]
            \<and> autoplays s' = autoplays s
                 @ (case playerRef e of None \<Rightarrow> [] | Some el \<Rightarrow> [(el, \<not> isScrubbing p)]))
         \<and> vod_source (apiHost e) (camera p) (timeRange p)
             = apiHost e @ ''vod/'' @ camera p @ ''/start/'' @ toString (start (timeRange p))
                 @ ''/end/'' @ toString (finish (timeRange p)) @ ''/master.m3u8''"
proof -
  from assms obtain g where s': "s' = commit (rendered e p g s)"
    by (rule rerender_cases)
  let ?r = "rendered e p g s"
  have id: "controller_ident s' = controller_ident ?r"
    by (simp add: s' commit_frame)
  have r: "props ?r = p" "env ?r = e" "playback_deps ?r = playback_deps s"
    "source ?r = source s" "sessions ?r = sessions s" "autoplays ?r = autoplays s"
    "isLoading ?r = isLoading s" "scrubbing_deps ?r = scrubbing_deps s"
    by (simp_all add: rendered_sel rendered_playback)
  have skip: "source s' = source s \<and> sessions s' = sessions s \<and> autoplays s' = autoplays s
      \<and> isLoading s' = (isLoading s \<or> (scrubbing_deps s \<noteq> isScrubbing p \<and> isScrubbing p))"
    if "\<not> playback_runs ?r"
    using commit_skip [OF that] by (simp add: s' r)
  have none: "controller ?r = None" if "controller s' = None"
    using that id by (simp add: controller_ident_def)
  have 1: "recordings e = None \<or> controller s' = None \<longrightarrow>
            source s' = source s \<and> sessions s' = sessions s \<and> autoplays s' = autoplays s
            \<and> isLoading s'
                = (isLoading s \<or> (scrubbing_deps s \<noteq> isScrubbing p \<and> isScrubbing p))"
    using skip none by (auto simp: playback_runs_def r)
  have 2: "playback_deps s = (controller_ident s', recordings e) \<longrightarrow>
            source s' = source s \<and> sessions s' = sessions s \<and> autoplays s' = autoplays s
            \<and> isLoading s'
                = (isLoading s \<or> (scrubbing_deps s \<noteq> isScrubbing p \<and> isScrubbing p))"
    using skip by (auto simp: playback_runs_def r id)
  have 3: "source s' = vod_source (apiHost e) (camera p) (timeRange p)
            \<and> isLoading s'
            \<and> session_recordings (val c') = val recs
            \<and> sessions s' = sessions s @ [val recs]
            \<and> autoplays s' = autoplays s
                 @ (case playerRef e of None \<Rightarrow> [] | Some el \<Rightarrow> [(el, \<not> isScrubbing p)])"
    if h: "recordings e = Some recs" "controller s' = Some c'"
      "playback_deps s \<noteq> (Some (ident c'), Some recs)"
  proof -
    from h(2) id obtain c where c: "controller ?r = Some c" "ident c = ident c'"
      by (cases "controller ?r") (auto simp: controller_ident_def)
    with h have runs: "playback_runs ?r"
      by (simp add: playback_runs_def r controller_ident_def)
    from c(1) h(1) have e: "recordings (env ?r) = Some recs"
      by (simp add: r)
    from commit_run [OF runs c(1) e] h(2) show ?thesis
      by (auto simp: s' r newPlayback_def cong: option.case_cong)
  qed
  from 1 2 3 show ?thesis
    by (simp add: vod_source_def)
qed

text \<open>
  The theorem at the render in which the recordings of range B resolve, and at two
  renders that change the range to B while its recordings are unresolved: one with
  \<^verbatim>\<open>isScrubbing\<close> false as before, one in which it turns true.
\<close>

theorem new_playback_when_recordings_resolve_witness:
  "rerender envB propsB s_pendingB = Inr s_loadingB
   \<and> recordings envB = Some recsB
   \<and> controller s_loadingB = Some (Obj 0 (ctl0\<lparr>session_recordings := val recsB\<rparr>))
   \<and> playback_deps s_pendingB \<noteq> (Some 0, Some recsB)
   \<and> source s_loadingB = ''/api/vod/front/start/2000/end/3000/master.m3u8''
   \<and> isLoading s_loadingB
   \<and> sessions s_loadingB = [val recsA, val recsB]
   \<and> autoplays s_loadingB = [(el0, True), (el0, True)]
   \<and> rerender env0 propsB s_playingA = Inr s_waitingB
   \<and> rerender env0 props_scrubB s_playingA = Inr s_scrubB
   \<and> recordings env0 = None
   \<and> source s_waitingB = source s_playingA
   \<and> \<not> isLoading s_waitingB
   \<and> source s_scrubB = source s_playingA
   \<and> isLoading s_scrubB"
proof -
  have r: "rerender envB propsB s_pendingB = Inr s_loadingB"
    using step_loadingB by simp
  have h: "recordings envB = Some recsB"
    "controller s_loadingB = Some (Obj 0 (ctl0\<lparr>session_recordings := val recsB\<rparr>))"
    "playback_deps s_pendingB \<noteq> (Some 0, Some recsB)"
    by (simp_all add: scenario_defs)
  have v: "source s_loadingB = ''/api/vod/front/start/2000/end/3000/master.m3u8''"
    "sessions s_loadingB = [val recsA, val recsB]"
    "autoplays s_loadingB = [(el0, True), (el0, True)]"
    by (simp_all add: scenario_defs sessions_def autoplays_def)
  from new_playback_when_recordings_resolve [OF r, of recsB
      "Obj 0 (ctl0\<lparr>session_recordings := val recsB\<rparr>)"] h
  have l: "isLoading s_loadingB"
    by simp
  have w: "rerender env0 propsB s_playingA = Inr s_waitingB"
    "rerender env0 props_scrubB s_playingA = Inr s_scrubB"
    using step_waitingB step_scrubB by simp_all
  have n: "recordings env0 = None" "\<not> isLoading s_playingA" "\<not> scrubbing_deps s_playingA"
    "\<not> isScrubbing propsB" "isScrubbing props_scrubB"
    by (simp_all add: scenario_defs props_scrubB_def)
  from new_playback_when_recordings_resolve [OF w(1), THEN conjunct1] n
  have a: "source s_waitingB = source s_playingA" "\<not> isLoading s_waitingB"
    by simp_all
  from new_playback_when_recordings_resolve [OF w(2), THEN conjunct1] n
  have b: "source s_scrubB = source s_playingA" "isLoading s_scrubB"
    by simp_all
  from r h v l w n(1) a b show ?thesis
    by blast
qed

text \<open>
  C6 as stated fails: range A plays, then the range changes to B while the recordings of
  B are still unresolved. The source is still A's, loading is false, and \<^verbatim>\<open>newPlayback\<close>
  has been called for A alone, not with an empty list for B.
\<close>

theorem range_change_before_fetch_counterexample:
  "mounted env0 props0
     [PreviewControllerReady pc0, Render env0 props0, Render envA props0, Playing,
      Render env0 propsB] = Inr s_waitingB
   \<and> timeRange (props s_waitingB) = rangeB
   \<and> recordings (env s_waitingB) = None
   \<and> source s_waitingB = ''/api/vod/front/start/1000/end/2000/master.m3u8''
   \<and> \<not> isLoading s_waitingB
   \<and> sessions s_waitingB = [val recsA]"
proof -
  have "mounted env0 props0
     [PreviewControllerReady pc0, Render env0 props0, Render envA props0, Playing,
      Render env0 propsB] = Inr s_waitingB"
    by (simp only: mounted_def mount_scenario run.simps step_preview step_ready step_loadingA
        step_playingA step_waitingB sum.case)
  then show ?thesis
    by (simp add: scenario_defs sessions_def)
qed

subsection \<open>C7: the seek of a deep link\<close>

text \<open>
  C7 states that when the full player reports \<open>loaded\<close> and a start timestamp was
  requested for the mount, exactly one seek to it with autoplay is commanded on the
  controller, once per load and not on every frame, and that in the scenario (offset 5,
  start timestamp 1500) the seek target is 1505.

  The handler returns at once while there is no controller and when the start timestamp
  is zero. What holds instead: a \<open>loaded\<close> event that finds a controller and a start
  timestamp that is not zero calls \<^verbatim>\<open>seekToTimestamp(startTimestamp, true)\<close> on the
  controller exactly once, and for a controller in playback mode the seek reaches the
  media element at the timestamp plus the offset, with autoplay; a \<open>loaded\<close> event that
  finds no controller changes nothing; a time update adds no seek. The target is the one
  the spec gives for \<^verbatim>\<open>seekToTimestamp\<close>; the call is the component's.
\<close>

theorem loaded_seeks_once:
  "(controller s = Some c \<and> startTimestamp (props s) = Some t \<and> t \<noteq> 0 \<longrightarrow>
      step (PlayerLoaded src) s = Inr (s\<lparr>calls := calls s @ [SeekToTimestamp c t True]\<rparr>)
      \<and> (playerMode (val c) = playback \<longrightarrow>
           commands (SeekToTimestamp c t True)
             = [MediaSeek (playerController (val c)) (t + annotationOffset (val c)) True]))
   \<and> (controller s = None \<longrightarrow> step (PlayerLoaded src) s = Inr s)
   \<and> filter is_seek (calls (onTimeUpdate time s)) = filter is_seek (calls s)"
  by (simp add: onPlayerLoaded_def onTimeUpdate_def seekToTimestamp_def split: option.splits)

text \<open>The theorem at the scenario: the target is 1505.\<close>

theorem loaded_seeks_once_witness:
  "controller s_ready = Some (Obj 0 ctl0)
   \<and> startTimestamp (props s_ready) = Some 1500
   \<and> step (PlayerLoaded sourceA) s_ready
       = Inr (s_ready\<lparr>calls := calls s_ready @ [SeekToTimestamp (Obj 0 ctl0) 1500 True]\<rparr>)
   \<and> filter is_seek (calls (onTimeUpdate 3 s_ready)) = filter is_seek (calls s_ready)
   \<and> commands (SeekToTimestamp (Obj 0 ctl0) 1500 True) = [MediaSeek el0 1505 True]"
proof -
  have c: "controller s_ready = Some (Obj 0 ctl0)"
    and t: "startTimestamp (props s_ready) = Some 1500"
    by (simp_all add: s_ready_def props0_def)
  have m: "playerMode (val (Obj 0 ctl0)) = playback" "playerController (val (Obj 0 ctl0)) = el0"
    "annotationOffset (val (Obj 0 ctl0)) = 5"
    by (simp_all add: ctl0_def)
  from loaded_seeks_once [of s_ready "Obj 0 ctl0" 1500 sourceA 3] c t m
  show ?thesis by simp
qed

text \<open>
  C7 as stated fails twice: the player loads right after the mount, before there is a
  controller, with the start timestamp 1500, and nothing is called; and it loads with a
  controller and the start timestamp 0, and no seek is commanded.
\<close>

theorem loaded_without_seek_counterexample:
  "mounted env0 props0 [PlayerLoaded sourceA] = Inr s_mounted
   \<and> startTimestamp (props s_mounted) = Some 1500
   \<and> calls s_mounted = []
   \<and> mounted env0 props0
        [PreviewControllerReady pc0, Render env0 props0, Render env0 props_epoch,
         PlayerLoaded sourceA] = Inr s_epoch
   \<and> startTimestamp (props s_epoch) = Some 0
   \<and> filter is_seek (calls s_epoch) = []"
proof -
  have 1: "step (PlayerLoaded sourceA) s_mounted = Inr s_mounted"
    by (simp add: onPlayerLoaded_def s_mounted_def)
  have 2: "step (PlayerLoaded sourceA) s_epoch = Inr s_epoch"
    by (simp add: onPlayerLoaded_def s_epoch_def props_epoch_def s_ready_def)
  have a: "mounted env0 props0 [PlayerLoaded sourceA] = Inr s_mounted"
    by (simp only: mounted_def mount_scenario run.simps 1 sum.case)
  have b: "mounted env0 props0
        [PreviewControllerReady pc0, Render env0 props0, Render env0 props_epoch,
         PlayerLoaded sourceA] = Inr s_epoch"
    by (simp only: mounted_def mount_scenario run.simps step_preview step_ready step_epoch 2
        sum.case)
  from a b show ?thesis
    by (simp add: s_mounted_def s_epoch_def s_ready_def props0_def props_epoch_def)
qed

subsection \<open>C8: time updates\<close>

text \<open>
  C8 states that a time update with raw time 0 is suppressed and that every other time
  update calls \<^verbatim>\<open>onTimestampUpdate\<close> with the raw time translated by \<^verbatim>\<open>getProgress\<close>.

  The handler also returns at once while there is no controller, and when the caller
  gave no callback. What holds instead: a time update with raw time 0 changes nothing; a
  time update with any other raw time that finds a controller and the callback calls
  \<^verbatim>\<open>onTimestampUpdate\<close> once, with the raw time translated by \<^verbatim>\<open>getProgress\<close>; a time
  update that finds no controller or no callback changes nothing.
\<close>

theorem time_update_forwarded:
  "step (TimeUpdate 0) s = Inr s
   \<and> (controller s = Some c \<and> onTimestampUpdate (props s) \<and> time \<noteq> 0 \<longrightarrow>
        step (TimeUpdate time) s
          = Inr (s\<lparr>calls := calls s @ [OnTimestampUpdate (getProgress (val c) time)]\<rparr>))
   \<and> (controller s = None \<or> \<not> onTimestampUpdate (props s) \<longrightarrow>
        step (TimeUpdate time) s = Inr s)"
  by (auto simp: onTimeUpdate_def split: option.splits)

text \<open>The theorem at the scenario: raw time 3 is forwarded as 8 once the controller is
  there, and dropped right after the mount.\<close>

theorem time_update_forwarded_witness:
  "controller s_ready = Some (Obj 0 ctl0) \<and> onTimestampUpdate (props s_ready)
   \<and> step (TimeUpdate 0) s_ready = Inr s_ready
   \<and> step (TimeUpdate 3) s_ready
       = Inr (s_ready\<lparr>calls := calls s_ready @ [OnTimestampUpdate 8]\<rparr>)
   \<and> controller s_mounted = None
   \<and> step (TimeUpdate 3) s_mounted = Inr s_mounted"
proof -
  have c: "controller s_ready = Some (Obj 0 ctl0)" "onTimestampUpdate (props s_ready)"
    "controller s_mounted = None"
    by (simp_all add: s_ready_def s_mounted_def props0_def)
  have g: "getProgress (val (Obj 0 ctl0)) 3 = 8"
    by (simp add: getProgress_def ctl0_def)
  from time_update_forwarded [of s_ready "Obj 0 ctl0" 3]
    time_update_forwarded [of s_mounted "Obj 0 ctl0" 3] c g
  show ?thesis by simp
qed

text \<open>
  C8 as stated fails: a time update with raw time 3 right after the mount, before there
  is a controller; the caller gave the callback and it is not called.
\<close>

theorem time_update_dropped_counterexample:
  "mounted env0 props0 [TimeUpdate 3] = Inr s_mounted
   \<and> onTimestampUpdate (props s_mounted)
   \<and> calls s_mounted = []"
proof -
  have "step (TimeUpdate 3) s_mounted = Inr s_mounted"
    by (simp add: onTimeUpdate_def s_mounted_def)
  then have "mounted env0 props0 [TimeUpdate 3] = Inr s_mounted"
    by (simp only: mounted_def mount_scenario run.simps sum.case)
  then show ?thesis
    by (simp add: s_mounted_def props0_def)
qed

subsection \<open>C9: the sizing class\<close>

text \<open>
  C9: for every camera of the configuration the sizing class is the empty one (wide,
  height unconstrained) when width / height is greater than 2, \<open>aspect-tall\<close> when it is
  less than 16 / 9, and \<open>aspect-video\<close> otherwise; for a positive height these are the
  comparisons \<open>2 * height < width\<close> and \<open>9 * width < 16 * height\<close>. After every render of
  every run the memoised class is the one of the camera and configuration of that
  render.
\<close>

theorem grow_sizing_class:
  "(map_of (cameras (val cfg)) cam = Some cc \<longrightarrow>
      grow_factory (Some cfg) cam =
        Inr (if js_gt (js_div (width (detect cc)) (height (detect cc))) 2 then ''''
             else if js_lt (js_div (width (detect cc)) (height (detect cc))) (16 / 9)
                  then ''aspect-tall''
             else ''aspect-video''))
   \<and> (map_of (cameras (val cfg)) cam = Some cc \<and> 0 < height (detect cc) \<longrightarrow>
      grow_factory (Some cfg) cam =
        Inr (if 2 * height (detect cc) < width (detect cc) then ''''
             else if 9 * width (detect cc) < 16 * height (detect cc) then ''aspect-tall''
             else ''aspect-video''))
   \<and> (mounted e p evs = Inr s \<longrightarrow>
      Inr (grow s) = grow_factory (config (env s)) (camera (props s)))"
proof (intro conjI impI)
  assume "map_of (cameras (val cfg)) cam = Some cc"
  then show "grow_factory (Some cfg) cam =
        Inr (if js_gt (js_div (width (detect cc)) (height (detect cc))) 2 then ''''
             else if js_lt (js_div (width (detect cc)) (height (detect cc))) (16 / 9)
                  then ''aspect-tall''
             else ''aspect-video'')"
    by (simp add: grow_factory_def Let_def)
next
  assume "map_of (cameras (val cfg)) cam = Some cc \<and> 0 < height (detect cc)"
  then show "grow_factory (Some cfg) cam =
        Inr (if 2 * height (detect cc) < width (detect cc) then ''''
             else if 9 * width (detect cc) < 16 * height (detect cc) then ''aspect-tall''
             else ''aspect-video'')"
    by (auto simp: grow_factory_def Let_def js_div_def field_simps)
next
  assume "mounted e p evs = Inr s"
  then obtain s0 where "mount e p = Inr s0" "run evs s0 = Inr s"
    by (auto simp: mounted_def split: sum.splits)
  then have "grow_current s"
    using grow_current_mount grow_current_run by blast
  then show "Inr (grow s) = grow_factory (config (env s)) (camera (props s))"
    by (simp add: grow_current_def)
qed

text \<open>The theorem at the camera \<open>back\<close> (2560 by 720) and at the run that switches to it.\<close>

theorem grow_sizing_class_witness:
  "map_of (cameras (val config0)) ''back'' = Some \<lparr>detect = back_detect\<rparr>
   \<and> 0 < height (detect \<lparr>detect = back_detect\<rparr>)
   \<and> grow_factory (Some config0) ''back'' = Inr ''''
   \<and> mounted env0 props0 [PreviewControllerReady pc0, Render env0 props0, Render env0 props_back]
       = Inr s_back
   \<and> Inr (grow s_back) = grow_factory (config (env s_back)) (camera (props s_back))"
proof -
  have m: "map_of (cameras (val config0)) ''back'' = Some \<lparr>detect = back_detect\<rparr>"
    by (simp add: config0_def)
  have h: "0 < height (detect \<lparr>detect = back_detect\<rparr>)"
    "2 * height (detect \<lparr>detect = back_detect\<rparr>) < width (detect \<lparr>detect = back_detect\<rparr>)"
    by (simp_all add: back_detect_def)
  have r: "mounted env0 props0
             [PreviewControllerReady pc0, Render env0 props0, Render env0 props_back] = Inr s_back"
    by (simp only: mounted_def mount_scenario run.simps step_preview step_ready step_back sum.case)
  note t = grow_sizing_class [of config0 "''back''" "\<lparr>detect = back_detect\<rparr>" env0 props0
      "[PreviewControllerReady pc0, Render env0 props0, Render env0 props_back]" s_back]
  from t [THEN conjunct2, THEN conjunct1] m h
  have a: "grow_factory (Some config0) ''back'' = Inr ''''"
    by simp
  from t [THEN conjunct2, THEN conjunct2] r
  have b: "Inr (grow s_back) = grow_factory (config (env s_back)) (camera (props s_back))"
    by blast
  from m h(1) a r b show ?thesis
    by blast
qed

subsection \<open>C10: no deep link to second 0\<close>

text \<open>
  C10: when the start timestamp is absent or exactly 0, a \<open>loaded\<close> event changes
  nothing; a \<open>loaded\<close> event that changes anything is a seek to a start timestamp that
  is not zero.
\<close>

theorem loaded_without_start_seeks_nothing:
  "(startTimestamp (props s) = None \<or> startTimestamp (props s) = Some 0 \<longrightarrow>
      step (PlayerLoaded src) s = Inr s)
   \<and> (step (PlayerLoaded src) s \<noteq> Inr s \<longrightarrow>
      (\<exists>c t. controller s = Some c \<and> startTimestamp (props s) = Some t \<and> t \<noteq> 0
         \<and> step (PlayerLoaded src) s = Inr (s\<lparr>calls := calls s @ [SeekToTimestamp c t True]\<rparr>)))"
  by (cases "controller s"; cases "startTimestamp (props s)") (auto simp: onPlayerLoaded_def)

text \<open>The theorem with a controller and the start timestamp 0.\<close>

theorem loaded_without_start_seeks_nothing_witness:
  "startTimestamp (props s_epoch) = Some 0
   \<and> controller s_epoch = Some (Obj 0 ctl0)
   \<and> step (Render env0 props_epoch) s_ready = Inr s_epoch
   \<and> step (PlayerLoaded (source s_epoch)) s_epoch = Inr s_epoch"
proof -
  have "startTimestamp (props s_epoch) = Some 0" "controller s_epoch = Some (Obj 0 ctl0)"
    by (simp_all add: s_epoch_def props_epoch_def s_ready_def)
  then show ?thesis
    using loaded_without_start_seeks_nothing [of s_epoch "source s_epoch"] step_epoch
    by simp
qed

end
